theory Spec2Isabelle
  imports Complex_Main
begin

section \<open>Data model\<close>

text \<open>
  A sample is a floating-point number or the not-a-number marker.  Numbers are
  idealised as reals (no rounding); the marker is \<open>None\<close>.  A series is a
  one-dimensional array of samples.
\<close>

type_synonym sample = "real option"
type_synonym series = "sample list"

datatype error = IndexError | ValueError | RuntimeError | TypeError | OverflowError

section \<open>Array primitives used by the filters\<close>

text \<open>
  Python slicing \<open>xs[start:stop]\<close> with integer bounds: a negative bound counts
  from the end, and every bound is clipped to the array.
\<close>

definition norm_index :: "nat \<Rightarrow> int \<Rightarrow> nat" where
  "norm_index n k = (if k < 0 then nat (max (k + int n) 0) else min (nat k) n)"

definition py_slice :: "'a list \<Rightarrow> int \<Rightarrow> int \<Rightarrow> 'a list" where
  "py_slice xs start stop =
     (let lo = norm_index (length xs) start;
          hi = norm_index (length xs) stop
      in take (hi - lo) (drop lo xs))"

text \<open>The samples of a window that are not missing.\<close>

fun present :: "series \<Rightarrow> real list" where
  "present [] = []"
| "present (None # w) = present w"
| "present (Some v # w) = v # present w"

text \<open>
  \<open>np.nanmean\<close> on a one-dimensional window: the mean of the samples that are
  not missing, and the missing marker when there is none (an empty window
  included).
\<close>

definition nanmean :: "series \<Rightarrow> sample" where
  "nanmean w =
     (let vs = present w
      in if vs = [] then None else Some (sum_list vs / real (length vs)))"

section \<open>The exact path: \<open>mov_avg_loop\<close>\<close>

text \<open>
  The expression both paths evaluate at index \<open>i\<close>:
  \<open>np.nanmean(y[np.maximum(i-samples_before,0):np.minimum(i+samples_after,len(y))+1])\<close>.
\<close>

definition window_mean :: "series \<Rightarrow> int \<Rightarrow> int \<Rightarrow> nat \<Rightarrow> sample" where
  "window_mean y samples_before samples_after i =
     nanmean (py_slice y (max (int i - samples_before) 0)
                         (min (int i + samples_after) (int (length y)) + 1))"

definition mov_avg_loop :: "series \<Rightarrow> int \<Rightarrow> int \<Rightarrow> series" where
  "mov_avg_loop y samples_before samples_after =
     (let samples_after = (if samples_after = - 1 then samples_before else samples_after);
          y_filt = y
      in fold (\<lambda>i y_filt. y_filt[i := window_mean y samples_before samples_after i])
              [0..<length y] y_filt)"

section \<open>The fast path: \<open>mov_avg_no_nan\<close>\<close>

text \<open>Failures are values: \<open>Inl\<close> carries the exception, \<open>Inr\<close> the result.\<close>

definition bind_err :: "error + 'a \<Rightarrow> ('a \<Rightarrow> error + 'b) \<Rightarrow> error + 'b" where
  "bind_err m f = (case m of Inl e \<Rightarrow> Inl e | Inr v \<Rightarrow> f v)"

text \<open>
  Slices with an omitted bound (\<open>xs[:k]\<close>, \<open>xs[k:]\<close>): reading one, assigning
  an array to one (the shapes must agree, a one-element right-hand side is
  broadcast, anything else is a \<open>ValueError\<close>) and assigning a scalar to one.
\<close>

definition slice_bounds :: "nat \<Rightarrow> int option \<Rightarrow> int option \<Rightarrow> nat \<times> nat" where
  "slice_bounds n start stop =
     (let lo = (case start of None \<Rightarrow> 0 | Some s \<Rightarrow> norm_index n s);
          hi = (case stop of None \<Rightarrow> n | Some s \<Rightarrow> norm_index n s)
      in (lo, max lo hi))"

definition get_slice :: "'a list \<Rightarrow> int option \<Rightarrow> int option \<Rightarrow> 'a list" where
  "get_slice xs start stop =
     (case slice_bounds (length xs) start stop of
        (lo, hi) \<Rightarrow> take (hi - lo) (drop lo xs))"

definition set_slice ::
  "'a list \<Rightarrow> int option \<Rightarrow> int option \<Rightarrow> 'a list \<Rightarrow> error + 'a list" where
  "set_slice xs start stop vs =
     (case slice_bounds (length xs) start stop of
        (lo, hi) \<Rightarrow>
          if length vs = hi - lo then Inr (take lo xs @ vs @ drop hi xs)
          else if length vs = 1 then Inr (take lo xs @ replicate (hi - lo) (hd vs) @ drop hi xs)
          else Inl ValueError)"

definition fill_slice :: "'a list \<Rightarrow> int option \<Rightarrow> int option \<Rightarrow> 'a \<Rightarrow> 'a list" where
  "fill_slice xs start stop v =
     (case slice_bounds (length xs) start stop of
        (lo, hi) \<Rightarrow> take lo xs @ replicate (hi - lo) v @ drop hi xs)"

text \<open>
  \<open>scipy.ndimage.uniform_filter1d(input, size, origin = 0, mode = 'reflect')\<close> is
  library code.  It refuses a size below one.  Otherwise it extends the input
  by reflection about its edges (\<open>d c b a | a b c d | d c b a\<close>), by
  \<open>size div 2\<close> samples before and \<open>size - size div 2 - 1\<close> after, and carries
  one running sum along the extended line: the sum of the first \<open>size\<close>
  samples, then at every step \<open>tmp += entering - leaving\<close>; every output is
  \<open>tmp / size\<close>.  The sum is never started afresh, so a not-a-number that
  enters it stays in every later output.  An empty input gives an empty
  output.
\<close>

definition reflect_index :: "nat \<Rightarrow> int \<Rightarrow> nat" where
  "reflect_index n k =
     (let m = nat (k mod (2 * int n)) in if m < n then m else 2 * n - 1 - m)"

definition add_s :: "sample \<Rightarrow> sample \<Rightarrow> sample" where
  "add_s a b = (case a of None \<Rightarrow> None
                | Some u \<Rightarrow> (case b of None \<Rightarrow> None | Some v \<Rightarrow> Some (u + v)))"

definition sub_s :: "sample \<Rightarrow> sample \<Rightarrow> sample" where
  "sub_s a b = (case a of None \<Rightarrow> None
                | Some u \<Rightarrow> (case b of None \<Rightarrow> None | Some v \<Rightarrow> Some (u - v)))"

definition div_s :: "sample \<Rightarrow> nat \<Rightarrow> sample" where
  "div_s a k = (case a of None \<Rightarrow> None | Some u \<Rightarrow> Some (u / real k))"

definition running_sum :: "series \<Rightarrow> nat \<Rightarrow> nat \<Rightarrow> series" where
  "running_sum iline filter_size len =
     (let tmp = fold (\<lambda>v tmp. add_s tmp v) (take filter_size iline) (Some 0);
          (tmp, oline) =
             fold (\<lambda>ll (tmp, oline).
                     let tmp = add_s tmp (sub_s (iline ! (ll + filter_size - 1))
                                                (iline ! (ll - 1)))
                     in (tmp, oline @ [div_s tmp filter_size]))
                  [1..<len] (tmp, [div_s tmp filter_size])
      in oline)"

definition uniform_filter1d :: "series \<Rightarrow> int \<Rightarrow> error + series" where
  "uniform_filter1d input size_w =
     (if size_w < 1 then Inl RuntimeError
      else if input = [] then Inr []
      else
        let filter_size = nat size_w;
            size1 = filter_size div 2;
            iline = map (\<lambda>k. input ! reflect_index (length input) (int k - int size1))
                        [0..<length input + filter_size - 1]
        in Inr (running_sum iline filter_size (length input)))"

definition mov_avg_no_nan :: "series \<Rightarrow> int \<Rightarrow> int \<Rightarrow> error + series" where
  "mov_avg_no_nan y samples_before samples_after =
     (let samples_after = (if samples_after = - 1 then samples_before else samples_after);
          size_w = samples_before + samples_after + 1
      in bind_err (uniform_filter1d y size_w) (\<lambda>y_filt.
         let shift = \<lceil>real_of_int (samples_after - samples_before) / 2\<rceil>
         in bind_err
              (if shift > 0
               then bind_err (set_slice y_filt None (Some (- shift))
                                (get_slice y_filt (Some shift) None))
                      (\<lambda>y_filt. Inr (fill_slice y_filt (Some (- shift)) None None))
               else Inr y_filt) (\<lambda>y_filt.
            bind_err
              (if shift < 0
               then bind_err (set_slice y_filt (Some (- shift)) None
                                (get_slice y_filt None (Some shift)))
                      (\<lambda>y_filt. Inr (fill_slice y_filt None (Some (- shift)) None))
               else Inr y_filt) (\<lambda>y_filt.
            let y_filt = fold (\<lambda>i y_filt. y_filt[i := window_mean y samples_before samples_after i])
                              [0..<nat (min (samples_before + \<bar>shift\<bar>) (int (length y)))]
                              y_filt;
                y_filt = fold (\<lambda>i y_filt. y_filt[i := window_mean y samples_before samples_after i])
                              (rev [Suc (nat (max 0 (int (length y) - samples_after - \<bar>shift\<bar> - 1)))
                                    ..<length y])
                              y_filt
            in Inr y_filt))))"

section \<open>Floating-point values\<close>

text \<open>
  A Python float, and an element of a float array, is a finite number, an
  infinity or not-a-number.  On finite operands a result is taken exactly
  (no rounding), except that a result whose magnitude reaches
  \<open>2^1024 - 2^970\<close>, the least magnitude that rounds to an infinity, is the
  infinity of its sign.  On the other operands the operations are those of
  IEEE 754: an infinity absorbs every finite operand, \<open>inf - inf\<close> and
  \<open>0 * inf\<close> are not-a-number, and not-a-number absorbs everything.
\<close>

datatype pyfloat = Fin real | PInf | NInf | NaN

definition float_overflow :: "real \<Rightarrow> bool" where
  "float_overflow r \<longleftrightarrow> 2 ^ 1024 - 2 ^ 970 \<le> \<bar>r\<bar>"

definition fin :: "real \<Rightarrow> pyfloat" where
  "fin r = (if float_overflow r then (if 0 < r then PInf else NInf) else Fin r)"

fun fsgn :: "pyfloat \<Rightarrow> real" where
  "fsgn (Fin a) = sgn a"
| "fsgn PInf = 1"
| "fsgn NInf = - 1"
| "fsgn NaN = 0"

fun fmul :: "pyfloat \<Rightarrow> pyfloat \<Rightarrow> pyfloat" where
  "fmul NaN y = NaN"
| "fmul x NaN = NaN"
| "fmul (Fin a) (Fin b) = fin (a * b)"
| "fmul x y = (let s = fsgn x * fsgn y
               in if s = 0 then NaN else if 0 < s then PInf else NInf)"

fun fadd :: "pyfloat \<Rightarrow> pyfloat \<Rightarrow> pyfloat" where
  "fadd NaN y = NaN"
| "fadd x NaN = NaN"
| "fadd (Fin a) (Fin b) = fin (a + b)"
| "fadd PInf NInf = NaN"
| "fadd NInf PInf = NaN"
| "fadd PInf y = PInf"
| "fadd NInf y = NInf"
| "fadd (Fin a) PInf = PInf"
| "fadd (Fin a) NInf = NInf"

fun fneg :: "pyfloat \<Rightarrow> pyfloat" where
  "fneg (Fin a) = Fin (- a)"
| "fneg PInf = NInf"
| "fneg NInf = PInf"
| "fneg NaN = NaN"

definition fsub :: "pyfloat \<Rightarrow> pyfloat \<Rightarrow> pyfloat" where
  "fsub x y = fadd x (fneg y)"

text \<open>Division of a float by a count.\<close>

fun fdiv :: "pyfloat \<Rightarrow> nat \<Rightarrow> pyfloat" where
  "fdiv (Fin a) k =
     (if k = 0 then (if a = 0 then NaN else if 0 < a then PInf else NInf)
      else Fin (a / real k))"
| "fdiv PInf k = PInf"
| "fdiv NInf k = NInf"
| "fdiv NaN k = NaN"

section \<open>The two paths on samples that may be infinite\<close>

text \<open>
  The same source functions, \<open>mov_avg_loop\<close> and \<open>mov_avg_no_nan\<close>, on arrays
  whose elements are floating-point values with the infinities: the missing
  marker is \<open>NaN\<close>, and an infinite sample is a sample like any other
  (\<open>np.isnan\<close> is false on it).
\<close>

type_synonym fseries = "pyfloat list"

text \<open>
  \<open>np.nanmean\<close>: the sum of the window with every not-a-number replaced by
  zero, divided by the number of samples that are not not-a-number.
\<close>

definition nanmean_x :: "fseries \<Rightarrow> pyfloat" where
  "nanmean_x w =
     (let arr = map (\<lambda>v. if v = NaN then Fin 0 else v) w;
          cnt = length (filter (\<lambda>v. v \<noteq> NaN) w);
          tot = fold (\<lambda>v tot. fadd tot v) arr (Fin 0)
      in fdiv tot cnt)"

definition window_mean_x :: "fseries \<Rightarrow> int \<Rightarrow> int \<Rightarrow> nat \<Rightarrow> pyfloat" where
  "window_mean_x y samples_before samples_after i =
     nanmean_x (py_slice y (max (int i - samples_before) 0)
                           (min (int i + samples_after) (int (length y)) + 1))"

definition mov_avg_loop_x :: "fseries \<Rightarrow> int \<Rightarrow> int \<Rightarrow> fseries" where
  "mov_avg_loop_x y samples_before samples_after =
     (let samples_after = (if samples_after = - 1 then samples_before else samples_after);
          y_filt = y
      in fold (\<lambda>i y_filt. y_filt[i := window_mean_x y samples_before samples_after i])
              [0..<length y] y_filt)"

definition running_sum_x :: "fseries \<Rightarrow> nat \<Rightarrow> nat \<Rightarrow> fseries" where
  "running_sum_x iline filter_size len =
     (let tmp = fold (\<lambda>v tmp. fadd tmp v) (take filter_size iline) (Fin 0);
          (tmp, oline) =
             fold (\<lambda>ll (tmp, oline).
                     let tmp = fadd tmp (fsub (iline ! (ll + filter_size - 1))
                                              (iline ! (ll - 1)))
                     in (tmp, oline @ [fdiv tmp filter_size]))
                  [1..<len] (tmp, [fdiv tmp filter_size])
      in oline)"

definition uniform_filter1d_x :: "fseries \<Rightarrow> int \<Rightarrow> error + fseries" where
  "uniform_filter1d_x input size_w =
     (if size_w < 1 then Inl RuntimeError
      else if input = [] then Inr []
      else
        let filter_size = nat size_w;
            size1 = filter_size div 2;
            iline = map (\<lambda>k. input ! reflect_index (length input) (int k - int size1))
                        [0..<length input + filter_size - 1]
        in Inr (running_sum_x iline filter_size (length input)))"

definition mov_avg_no_nan_x :: "fseries \<Rightarrow> int \<Rightarrow> int \<Rightarrow> error + fseries" where
  "mov_avg_no_nan_x y samples_before samples_after =
     (let samples_after = (if samples_after = - 1 then samples_before else samples_after);
          size_w = samples_before + samples_after + 1
      in bind_err (uniform_filter1d_x y size_w) (\<lambda>y_filt.
         let shift = \<lceil>real_of_int (samples_after - samples_before) / 2\<rceil>
         in bind_err
              (if shift > 0
               then bind_err (set_slice y_filt None (Some (- shift))
                                (get_slice y_filt (Some shift) None))
                      (\<lambda>y_filt. Inr (fill_slice y_filt (Some (- shift)) None NaN))
               else Inr y_filt) (\<lambda>y_filt.
            bind_err
              (if shift < 0
               then bind_err (set_slice y_filt (Some (- shift)) None
                                (get_slice y_filt None (Some shift)))
                      (\<lambda>y_filt. Inr (fill_slice y_filt None (Some (- shift)) NaN))
               else Inr y_filt) (\<lambda>y_filt.
            let y_filt = fold (\<lambda>i y_filt. y_filt[i := window_mean_x y samples_before samples_after i])
                              [0..<nat (min (samples_before + \<bar>shift\<bar>) (int (length y)))]
                              y_filt;
                y_filt = fold (\<lambda>i y_filt. y_filt[i := window_mean_x y samples_before samples_after i])
                              (rev [Suc (nat (max 0 (int (length y) - samples_after - \<bar>shift\<bar> - 1)))
                                    ..<length y])
                              y_filt
            in Inr y_filt))))"

section \<open>The dispatcher \<open>mov_avg\<close> and the constant-rate adapter \<open>mov_avg_time\<close>\<close>

text \<open>
  The condition of the dispatcher is \<open>np.isnan(y).any\<close>: the method itself,
  not a call of it.  A bound method is a true value whatever \<open>y\<close> holds.
\<close>

definition isnan_any :: "series \<Rightarrow> bool" where
  "isnan_any y = True"

text \<open>
  Both branches pass \<open>samples_after = -1\<close> on, not the caller's
  \<open>samples_after\<close>.
\<close>

definition mov_avg :: "series \<Rightarrow> int \<Rightarrow> int \<Rightarrow> error + series" where
  "mov_avg y samples_before samples_after =
     (if isnan_any y then Inr (mov_avg_loop y samples_before (- 1))
      else mov_avg_no_nan y samples_before (- 1))"

text \<open>
  The frequency and the durations are Python floats.
\<close>

text \<open>
  \<open>int(r)\<close> on a float: truncation toward zero; an \<open>OverflowError\<close> on an
  infinity and a \<open>ValueError\<close> on not-a-number.
\<close>

fun py_int :: "pyfloat \<Rightarrow> error + int" where
  "py_int (Fin r) = Inr (if 0 \<le> r then \<lfloor>r\<rfloor> else \<lceil>r\<rceil>)"
| "py_int PInf = Inl OverflowError"
| "py_int NInf = Inl OverflowError"
| "py_int NaN = Inl ValueError"

definition mov_avg_time ::
  "series \<Rightarrow> pyfloat \<Rightarrow> pyfloat \<Rightarrow> pyfloat \<Rightarrow> error + series" where
  "mov_avg_time y freq time_units_before time_units_after =
     bind_err (py_int (fmul time_units_before freq)) (\<lambda>samples_before.
     bind_err (if time_units_after \<noteq> Fin (- 1) then py_int (fmul time_units_after freq)
               else Inr (- 1)) (\<lambda>samples_after.
     let y_filt = mov_avg y samples_before samples_after
     in y_filt))"

section \<open>The variable-rate engine: \<open>mov_avg_time_variable_freq\<close>\<close>

text \<open>
  The argument \<open>listYarrays\<close> is one series (a sequence of scalars) or a batch
  (a sequence of series).  The result is an array of rank 0, 1 or 2.
\<close>

datatype yarg = Single series | Batch "series list"

datatype ndarray = Arr0 sample | Arr1 series | Arr2 "series list"

text \<open>\<open>containsScalars\<close> reads \<open>iterable[0]\<close>, which raises on an empty sequence.\<close>

fun containsScalars :: "yarg \<Rightarrow> error + bool" where
  "containsScalars (Single []) = Inl IndexError"
| "containsScalars (Single (v # vs)) = Inr True"
| "containsScalars (Batch []) = Inl IndexError"
| "containsScalars (Batch (r # rs)) = Inr False"

text \<open>
  \<open>np.array(listYarrays).astype("float")\<close> on a list of rows: a two-dimensional
  array when the rows have one length, a \<open>ValueError\<close> when they are ragged.
\<close>

definition ncols :: "series list \<Rightarrow> nat" where
  "ncols arr = (case arr of [] \<Rightarrow> 0 | r # rs \<Rightarrow> length r)"

definition np_array :: "series list \<Rightarrow> error + series list" where
  "np_array rows =
     (if list_all (\<lambda>r. length r = ncols rows) rows then Inr rows else Inl ValueError)"

text \<open>A comparison with a not-a-number operand is false.\<close>

definition lt_sample :: "sample \<Rightarrow> sample \<Rightarrow> bool" where
  "lt_sample a b = (case (a, b) of (Some u, Some v) \<Rightarrow> u < v | _ \<Rightarrow> False)"

text \<open>\<open>w[mask] = np.nan\<close> for an elementwise mask.\<close>

definition set_nan_where :: "(sample \<Rightarrow> bool) \<Rightarrow> series \<Rightarrow> series" where
  "set_nan_where m w = map (\<lambda>s. if m s then None else s) w"

text \<open>
  The indexes \<open>np.argwhere(~np.isnan(timing_window))\<close> of one iteration of the
  loop over \<open>i\<close>.
\<close>

definition window_indexes :: "series \<Rightarrow> real \<Rightarrow> real \<Rightarrow> nat \<Rightarrow> nat list" where
  "window_indexes x time_units_before time_units_after i =
     (let this_moment = x ! i;
          timing_window = x;
          timing_window = set_nan_where
             (\<lambda>s. lt_sample s (map_option (\<lambda>t. t - time_units_before) this_moment))
             timing_window;
          timing_window = set_nan_where
             (\<lambda>s. lt_sample (map_option (\<lambda>t. t + time_units_after) this_moment) s)
             timing_window
      in filter (\<lambda>j. timing_window ! j \<noteq> None) [0..<length timing_window])"

text \<open>
  \<open>np.squeeze(np.nanmean(arr[:, indexes], axis = 1))\<close>: one mean per row; an
  index beyond the columns is an \<open>IndexError\<close>.
\<close>

definition column_means :: "series list \<Rightarrow> nat list \<Rightarrow> error + sample list" where
  "column_means arr indexes =
     (if list_all (\<lambda>j. j < ncols arr) indexes
      then Inr (map (\<lambda>r. nanmean (map ((!) r) indexes)) arr)
      else Inl IndexError)"

text \<open>\<open>arr[:, i] = col\<close>.\<close>

definition set_column :: "series list \<Rightarrow> nat \<Rightarrow> sample list \<Rightarrow> error + series list" where
  "set_column arr i col =
     (if i < ncols arr then Inr (map2 (\<lambda>r v. r[i := v]) arr col) else Inl IndexError)"

text \<open>
  \<open>np.squeeze\<close> of a two-dimensional array removes every axis of length one.
\<close>

definition np_squeeze :: "series list \<Rightarrow> ndarray" where
  "np_squeeze arr =
     (if length arr = 1 \<and> ncols arr = 1 then Arr0 (hd (hd arr))
      else if length arr = 1 then Arr1 (hd arr)
      else if arr \<noteq> [] \<and> ncols arr = 1 then Arr1 (map hd arr)
      else Arr2 arr)"

definition mov_avg_time_variable_freq ::
  "series \<Rightarrow> yarg \<Rightarrow> real \<Rightarrow> real \<Rightarrow> error + ndarray" where
  "mov_avg_time_variable_freq x listYarrays time_units_before time_units_after =
     bind_err (containsScalars listYarrays) (\<lambda>oneArrayFlag.
       let listYarrays = (case listYarrays of Single ys \<Rightarrow> [ys] | Batch yss \<Rightarrow> yss);
           time_units_after = (if time_units_after = - 1 then time_units_before
                               else time_units_after)
       in bind_err (np_array listYarrays) (\<lambda>arrayYarrays.
          let arrayYarrays_filt = arrayYarrays
          in bind_err
               (fold (\<lambda>i acc. bind_err acc (\<lambda>arrayYarrays_filt.
                        bind_err (column_means arrayYarrays
                                    (window_indexes x time_units_before time_units_after i))
                          (\<lambda>col. set_column arrayYarrays_filt i col)))
                     [0..<length x] (Inr arrayYarrays_filt))
               (\<lambda>arrayYarrays_filt.
                  if oneArrayFlag then Inr (np_squeeze arrayYarrays_filt)
                  else Inr (Arr2 arrayYarrays_filt))))"

text \<open>
  What a caller sees of a result: its shape, and its \<open>len()\<close>, which an array
  of rank 0 does not have.
\<close>

fun shape :: "ndarray \<Rightarrow> nat list" where
  "shape (Arr0 v) = []"
| "shape (Arr1 ys) = [length ys]"
| "shape (Arr2 yss) = [length yss, ncols yss]"

fun py_len :: "ndarray \<Rightarrow> error + nat" where
  "py_len (Arr0 v) = Inl TypeError"
| "py_len (Arr1 ys) = Inr (length ys)"
| "py_len (Arr2 yss) = Inr (length yss)"

section \<open>The operations on an explicit store\<close>

text \<open>
  To speak of what a call leaves unchanged, the arrays live in a store: a list
  of objects addressed by position.  An allocation (\<open>copy\<close>, \<open>np.array\<close>,
  \<open>astype\<close>, the result of a library function) appends an object; an
  assignment to an element or a slice of an array replaces the object at the
  address of that array.  An operation takes the addresses of its arguments and
  returns the address of its result (of the base array when the result is a
  view, as that of \<open>np.squeeze\<close>) with the store it leaves.
\<close>

datatype obj = Vec series | Mat "series list"

type_synonym store = "obj list"
type_synonym addr = nat

fun vec_of :: "obj \<Rightarrow> series" where
  "vec_of (Vec v) = v"
| "vec_of (Mat m) = concat m"

fun mat_of :: "obj \<Rightarrow> series list" where
  "mat_of (Mat m) = m"
| "mat_of (Vec v) = [v]"

definition alloc :: "obj \<Rightarrow> store \<Rightarrow> addr \<times> store" where
  "alloc ob st = (length st, st @ [ob])"

definition get_vec :: "store \<Rightarrow> addr \<Rightarrow> series" where
  "get_vec st a = vec_of (st ! a)"

definition get_mat :: "store \<Rightarrow> addr \<Rightarrow> series list" where
  "get_mat st a = mat_of (st ! a)"

definition upd_vec :: "addr \<Rightarrow> (series \<Rightarrow> series) \<Rightarrow> store \<Rightarrow> store" where
  "upd_vec a f st = st[a := Vec (f (get_vec st a))]"

definition fix_samples :: "addr \<Rightarrow> addr \<Rightarrow> int \<Rightarrow> int \<Rightarrow> nat list \<Rightarrow> store \<Rightarrow> store" where
  "fix_samples y y_filt samples_before samples_after js st =
     fold (\<lambda>i st. upd_vec y_filt
                     (\<lambda>v. v[i := window_mean (get_vec st y) samples_before samples_after i]) st)
          js st"

definition mov_avg_loop_h :: "addr \<Rightarrow> int \<Rightarrow> int \<Rightarrow> store \<Rightarrow> addr \<times> store" where
  "mov_avg_loop_h y samples_before samples_after st =
     (let samples_after = (if samples_after = - 1 then samples_before else samples_after);
          (y_filt, st) = alloc (Vec (get_vec st y)) st
      in (y_filt, fix_samples y y_filt samples_before samples_after
                    [0..<length (get_vec st y)] st))"

definition shift_in_place :: "addr \<Rightarrow> int \<Rightarrow> store \<Rightarrow> (error + unit) \<times> store" where
  "shift_in_place y_filt shift st =
     (if shift > 0
      then (case set_slice (get_vec st y_filt) None (Some (- shift))
                   (get_slice (get_vec st y_filt) (Some shift) None) of
              Inl e \<Rightarrow> (Inl e, st)
            | Inr v \<Rightarrow>
                (Inr (), upd_vec y_filt (\<lambda>w. fill_slice w (Some (- shift)) None None)
                           (upd_vec y_filt (\<lambda>w. v) st)))
      else if shift < 0
      then (case set_slice (get_vec st y_filt) (Some (- shift)) None
                   (get_slice (get_vec st y_filt) None (Some shift)) of
              Inl e \<Rightarrow> (Inl e, st)
            | Inr v \<Rightarrow>
                (Inr (), upd_vec y_filt (\<lambda>w. fill_slice w None (Some (- shift)) None)
                           (upd_vec y_filt (\<lambda>w. v) st)))
      else (Inr (), st))"

definition fix_first :: "addr \<Rightarrow> addr \<Rightarrow> int \<Rightarrow> int \<Rightarrow> int \<Rightarrow> store \<Rightarrow> store" where
  "fix_first y y_filt samples_before samples_after shift st =
     fix_samples y y_filt samples_before samples_after
       [0..<nat (min (samples_before + \<bar>shift\<bar>) (int (length (get_vec st y))))] st"

definition fix_last :: "addr \<Rightarrow> addr \<Rightarrow> int \<Rightarrow> int \<Rightarrow> int \<Rightarrow> store \<Rightarrow> store" where
  "fix_last y y_filt samples_before samples_after shift st =
     fix_samples y y_filt samples_before samples_after
       (rev [Suc (nat (max 0 (int (length (get_vec st y)) - samples_after - \<bar>shift\<bar> - 1)))
             ..<length (get_vec st y)]) st"

definition mov_avg_no_nan_h :: "addr \<Rightarrow> int \<Rightarrow> int \<Rightarrow> store \<Rightarrow> (error + addr) \<times> store" where
  "mov_avg_no_nan_h y samples_before samples_after st =
     (let samples_after = (if samples_after = - 1 then samples_before else samples_after);
          size_w = samples_before + samples_after + 1
      in case uniform_filter1d (get_vec st y) size_w of
           Inl e \<Rightarrow> (Inl e, st)
         | Inr u \<Rightarrow>
             let (y_filt, st) = alloc (Vec u) st;
                 shift = \<lceil>real_of_int (samples_after - samples_before) / 2\<rceil>;
                 (r, st) = shift_in_place y_filt shift st
             in case r of
                  Inl e \<Rightarrow> (Inl e, st)
                | Inr _ \<Rightarrow>
                    let st = fix_first y y_filt samples_before samples_after shift st;
                        st = fix_last y y_filt samples_before samples_after shift st
                    in (Inr y_filt, st))"

definition mov_avg_h :: "addr \<Rightarrow> int \<Rightarrow> int \<Rightarrow> store \<Rightarrow> (error + addr) \<times> store" where
  "mov_avg_h y samples_before samples_after st =
     (if isnan_any (get_vec st y)
      then (case mov_avg_loop_h y samples_before (- 1) st of
              (y_filt, st) \<Rightarrow> (Inr y_filt, st))
      else mov_avg_no_nan_h y samples_before (- 1) st)"

definition mov_avg_time_h ::
  "addr \<Rightarrow> pyfloat \<Rightarrow> pyfloat \<Rightarrow> pyfloat \<Rightarrow> store \<Rightarrow> (error + addr) \<times> store" where
  "mov_avg_time_h y freq time_units_before time_units_after st =
     (case py_int (fmul time_units_before freq) of
        Inl e \<Rightarrow> (Inl e, st)
      | Inr samples_before \<Rightarrow>
          (case (if time_units_after \<noteq> Fin (- 1) then py_int (fmul time_units_after freq)
                 else Inr (- 1)) of
             Inl e \<Rightarrow> (Inl e, st)
           | Inr samples_after \<Rightarrow> mov_avg_h y samples_before samples_after st))"

datatype yarg_h = SingleH addr | BatchH "addr list"

definition containsScalars_h :: "store \<Rightarrow> yarg_h \<Rightarrow> error + bool" where
  "containsScalars_h st l =
     (case l of
        SingleH a \<Rightarrow> (if get_vec st a = [] then Inl IndexError else Inr True)
      | BatchH as \<Rightarrow> (if as = [] then Inl IndexError else Inr False))"

definition variable_freq_step ::
  "addr \<Rightarrow> addr \<Rightarrow> addr \<Rightarrow> real \<Rightarrow> real \<Rightarrow> nat \<Rightarrow> store \<Rightarrow> (error + unit) \<times> store" where
  "variable_freq_step x arrayYarrays arrayYarrays_filt time_units_before time_units_after i st =
     (let this_moment = get_vec st x ! i;
          (timing_window, st) = alloc (Vec (get_vec st x)) st;
          st = upd_vec timing_window (set_nan_where
                 (\<lambda>s. lt_sample s (map_option (\<lambda>t. t - time_units_before) this_moment))) st;
          st = upd_vec timing_window (set_nan_where
                 (\<lambda>s. lt_sample (map_option (\<lambda>t. t + time_units_after) this_moment) s)) st;
          indexes = filter (\<lambda>j. get_vec st timing_window ! j \<noteq> None)
                           [0..<length (get_vec st timing_window)]
      in case column_means (get_mat st arrayYarrays) indexes of
           Inl e \<Rightarrow> (Inl e, st)
         | Inr col \<Rightarrow>
             (case set_column (get_mat st arrayYarrays_filt) i col of
                Inl e \<Rightarrow> (Inl e, st)
              | Inr m \<Rightarrow> (Inr (), st[arrayYarrays_filt := Mat m])))"

definition mov_avg_time_variable_freq_h ::
  "addr \<Rightarrow> yarg_h \<Rightarrow> real \<Rightarrow> real \<Rightarrow> store \<Rightarrow> (error + addr) \<times> store" where
  "mov_avg_time_variable_freq_h x listYarrays time_units_before time_units_after st =
     (case containsScalars_h st listYarrays of
        Inl e \<Rightarrow> (Inl e, st)
      | Inr oneArrayFlag \<Rightarrow>
          let listYarrays = (case listYarrays of SingleH a \<Rightarrow> [get_vec st a]
                             | BatchH as \<Rightarrow> map (get_vec st) as);
              time_units_after = (if time_units_after = - 1 then time_units_before
                                  else time_units_after);
              (x, st) = alloc (Vec (get_vec st x)) st
          in case np_array listYarrays of
               Inl e \<Rightarrow> (Inl e, st)
             | Inr rows \<Rightarrow>
                 let (arrayYarrays, st) = alloc (Mat rows) st;
                     (arrayYarrays_filt, st) = alloc (Mat (get_mat st arrayYarrays)) st;
                     (r, st) = fold (\<lambda>i (r, st). case r of
                                        Inl e \<Rightarrow> (Inl e, st)
                                      | Inr _ \<Rightarrow> variable_freq_step x arrayYarrays
                                                  arrayYarrays_filt time_units_before
                                                  time_units_after i st)
                                    [0..<length (get_vec st x)] (Inr (), st)
                 in case r of
                      Inl e \<Rightarrow> (Inl e, st)
                    | Inr _ \<Rightarrow> (Inr arrayYarrays_filt, st))"

section \<open>Auxiliary facts\<close>

lemma fold_update_upt:
  "length ys = n \<Longrightarrow> k \<le> n \<Longrightarrow>
   fold (\<lambda>i zs. zs[i := f i]) [0..<k] ys = map f [0..<k] @ drop k ys"
proof (induction k)
  case 0
  then show ?case by simp
next
  case (Suc k)
  then have k: "k < length ys" by simp
  have "fold (\<lambda>i zs. zs[i := f i]) [0..<Suc k] ys
        = (map f [0..<k] @ drop k ys)[k := f k]"
    using Suc by simp
  also have "\<dots> = map f [0..<k] @ (drop k ys)[0 := f k]"
    by (simp add: list_update_append)
  also have "(drop k ys)[0 := f k] = f k # drop (Suc k) ys"
    using k by (simp add: Cons_nth_drop_Suc [symmetric])
  finally show ?case by simp
qed

lemma fold_update_all:
  "fold (\<lambda>i zs. zs[i := f i]) [0..<length ys] ys = map f [0..<length ys]"
  using fold_update_upt [of ys "length ys" "length ys" f] by simp

lemma mov_avg_loop_map:
  "mov_avg_loop y b a =
     map (window_mean y b (if a = - 1 then b else a)) [0..<length y]"
  unfolding mov_avg_loop_def Let_def by (rule fold_update_all)

lemma length_mov_avg_loop: "length (mov_avg_loop y b a) = length y"
  by (simp add: mov_avg_loop_map)

lemma nanmean_single: "nanmean [s] = s"
  by (cases s) (simp_all add: nanmean_def)

lemma py_slice_single:
  "i < length y \<Longrightarrow> py_slice y (int i) (int i + 1) = [y ! i]"
proof -
  assume i: "i < length y"
  have lo: "norm_index (length y) (int i) = i"
    using i by (simp add: norm_index_def)
  have hi: "norm_index (length y) (int i + 1) = Suc i"
    using i by (simp add: norm_index_def nat_add_distrib)
  show ?thesis
    unfolding py_slice_def Let_def lo hi using i
    by (simp add: take_Suc_conv_app_nth)
qed

lemma present_empty_iff: "present w = [] \<longleftrightarrow> (\<forall>s\<in>set w. s = None)"
  by (induction w rule: present.induct) simp_all

lemma take_drop_nth_upt:
  "h \<le> length xs \<Longrightarrow> take (h - l) (drop l xs) = map ((!) xs) [l..<h]"
proof -
  assume h: "h \<le> length xs"
  have "take (h - l) (drop l (map ((!) xs) [0..<length xs])) = map ((!) xs) [l..<h]"
    using h by (cases "l \<le> h") (simp_all add: take_map drop_map)
  then show ?thesis by (simp add: map_nth)
qed

lemma window_mean_zero: "i < length y \<Longrightarrow> window_mean y 0 0 i = y ! i"
  unfolding window_mean_def
  by (simp add: py_slice_single nanmean_single min_def)

lemma mov_avg_is_loop: "mov_avg y b a = Inr (mov_avg_loop y b b)"
  by (simp add: mov_avg_def isnan_any_def mov_avg_loop_map)

lemmas eval_loop =
  mov_avg_loop_map window_mean_def py_slice_def norm_index_def nanmean_def upt_rec

lemma window_indexes_real:
  assumes "i < length xs"
  shows "window_indexes (map Some xs) tb ta i =
         filter (\<lambda>j. xs ! i - tb \<le> xs ! j \<and> xs ! j \<le> xs ! i + ta) [0..<length xs]"
  using assms unfolding window_indexes_def Let_def set_nan_where_def
  by (simp, intro filter_cong [OF refl]) (auto simp add: lt_sample_def)

lemma update_prefix:
  "k < length r \<Longrightarrow>
   (map f [0..<k] @ drop k r)[k := f k] = map f [0..<Suc k] @ drop (Suc k) r"
proof -
  assume k: "k < length r"
  have "(map f [0..<k] @ drop k r)[k := f k] = map f [0..<k] @ (drop k r)[0 := f k]"
    by (simp add: list_update_append)
  also have "(drop k r)[0 := f k] = f k # drop (Suc k) r"
    using k by (simp add: Cons_nth_drop_Suc [symmetric])
  finally show ?thesis by simp
qed

lemma ncols_map:
  "arr \<noteq> [] \<Longrightarrow> (\<And>r. r \<in> set arr \<Longrightarrow> length (F r) = n) \<Longrightarrow> ncols (map F arr) = n"
  by (cases arr) (simp_all add: ncols_def)

lemma variable_freq_loop:
  assumes ne: "arr \<noteq> []"
    and len: "\<And>r. r \<in> set arr \<Longrightarrow> length r = n"
    and W: "\<And>i. i < n \<Longrightarrow> list_all (\<lambda>j. j < n) (W i)"
    and k: "k \<le> n"
  shows "fold (\<lambda>i acc. bind_err acc (\<lambda>filt.
                 bind_err (column_means arr (W i)) (\<lambda>col. set_column filt i col)))
              [0..<k] (Inr arr)
         = Inr (map (\<lambda>r. map (\<lambda>i. nanmean (map ((!) r) (W i))) [0..<k] @ drop k r) arr)"
  using k
proof (induction k)
  case 0
  then show ?case by simp
next
  case (Suc k)
  let ?M = "\<lambda>r i. nanmean (map ((!) r) (W i))"
  let ?F = "\<lambda>r. map (?M r) [0..<k] @ drop k r"
  have kn: "k < n" using Suc.prems by simp
  have nc: "ncols arr = n" using ne len by (cases arr) (simp_all add: ncols_def)
  have ncF: "ncols (map ?F arr) = n"
    using kn len by (intro ncols_map [OF ne]) simp
  have cm: "column_means arr (W k) = Inr (map (\<lambda>r. ?M r k) arr)"
    using W [OF kn] by (simp add: column_means_def nc)
  have upd: "map (\<lambda>r. (?F r)[k := ?M r k]) arr
             = map (\<lambda>r. map (?M r) [0..<Suc k] @ drop (Suc k) r) arr"
  proof (rule map_cong [OF refl])
    fix r assume "r \<in> set arr"
    then have "k < length r" using kn len by simp
    then show "(?F r)[k := ?M r k] = map (?M r) [0..<Suc k] @ drop (Suc k) r"
      by (rule update_prefix)
  qed
  have sc: "set_column (map ?F arr) k (map (\<lambda>r. ?M r k) arr)
            = Inr (map (\<lambda>r. map (?M r) [0..<Suc k] @ drop (Suc k) r) arr)"
    unfolding set_column_def ncF using kn upd by (simp add: map2_map_map)
  show ?case
    using Suc.IH kn cm sc by (simp add: bind_err_def)
qed

lemma bind_err_Inr: "bind_err (Inr v) f = f v"
  by (simp add: bind_err_def)

lemma bind_err_Inl: "bind_err (Inl e) f = Inl e"
  by (simp add: bind_err_def)

lemma variable_freq_rows:
  assumes ne: "yss \<noteq> []"
    and len: "\<And>ys. ys \<in> set yss \<Longrightarrow> length ys = length xs"
    and ta: "ta \<noteq> - 1"
  shows "fold (\<lambda>i acc. bind_err acc (\<lambda>filt.
                 bind_err (column_means yss (window_indexes (map Some xs) tb ta i))
                   (\<lambda>col. set_column filt i col)))
              [0..<length xs] (Inr yss)
         = Inr (map (\<lambda>ys. map (\<lambda>i. nanmean (map ((!) ys)
                      (filter (\<lambda>j. xs ! i - tb \<le> xs ! j \<and> xs ! j \<le> xs ! i + ta)
                              [0..<length xs]))) [0..<length xs]) yss)"
proof -
  let ?W = "window_indexes (map Some xs) tb ta"
  have W: "\<And>i. i < length xs \<Longrightarrow> list_all (\<lambda>j. j < length xs) (?W i)"
    by (simp add: window_indexes_real list_all_iff)
  have "fold (\<lambda>i acc. bind_err acc (\<lambda>filt.
                 bind_err (column_means yss (?W i)) (\<lambda>col. set_column filt i col)))
              [0..<length xs] (Inr yss)
        = Inr (map (\<lambda>r. map (\<lambda>i. nanmean (map ((!) r) (?W i))) [0..<length xs]
                         @ drop (length xs) r) yss)"
    by (rule variable_freq_loop [OF ne len W]) simp_all
  also have "map (\<lambda>r. map (\<lambda>i. nanmean (map ((!) r) (?W i))) [0..<length xs]
                         @ drop (length xs) r) yss
        = map (\<lambda>ys. map (\<lambda>i. nanmean (map ((!) ys)
                      (filter (\<lambda>j. xs ! i - tb \<le> xs ! j \<and> xs ! j \<le> xs ! i + ta)
                              [0..<length xs]))) [0..<length xs]) yss"
    using len by (intro map_cong [OF refl]) (simp add: window_indexes_real)
  finally show ?thesis .
qed

lemma np_array_rect:
  "(\<And>ys. ys \<in> set yss \<Longrightarrow> length ys = n) \<Longrightarrow> np_array yss = Inr yss"
  by (cases yss) (simp_all add: np_array_def ncols_def list_all_iff)

lemma variable_freq_batch:
  assumes ne: "yss \<noteq> []"
    and len: "\<And>ys. ys \<in> set yss \<Longrightarrow> length ys = length xs"
    and ta: "ta \<noteq> - 1"
  shows "mov_avg_time_variable_freq (map Some xs) (Batch yss) tb ta =
         Inr (Arr2 (map (\<lambda>ys. map (\<lambda>i. nanmean (map ((!) ys)
                      (filter (\<lambda>j. xs ! i - tb \<le> xs ! j \<and> xs ! j \<le> xs ! i + ta)
                              [0..<length xs]))) [0..<length xs]) yss))"
proof -
  obtain r rs where yss: "yss = r # rs" using ne by (cases yss) auto
  have cs: "containsScalars (Batch yss) = Inr False" by (simp add: yss)
  show ?thesis
    unfolding mov_avg_time_variable_freq_def cs
    using ta by (simp add: bind_err_Inr np_array_rect [OF len] variable_freq_rows [OF ne len ta])
qed

lemma variable_freq_single:
  assumes ne: "ys \<noteq> []"
    and len: "length ys = length xs"
    and ta: "ta \<noteq> - 1"
  shows "mov_avg_time_variable_freq (map Some xs) (Single ys) tb ta =
         Inr (np_squeeze [map (\<lambda>i. nanmean (map ((!) ys)
                      (filter (\<lambda>j. xs ! i - tb \<le> xs ! j \<and> xs ! j \<le> xs ! i + ta)
                              [0..<length xs]))) [0..<length xs]])"
proof -
  obtain v vs where ys: "ys = v # vs" using ne by (cases ys) auto
  have cs: "containsScalars (Single ys) = Inr True" by (simp add: ys)
  have arr: "np_array [ys] = Inr [ys]"
    by (simp add: np_array_def ncols_def)
  have rows: "fold (\<lambda>i acc. bind_err acc (\<lambda>filt.
                 bind_err (column_means [ys] (window_indexes (map Some xs) tb ta i))
                   (\<lambda>col. set_column filt i col)))
              [0..<length xs] (Inr [ys])
         = Inr (map (\<lambda>ys. map (\<lambda>i. nanmean (map ((!) ys)
                      (filter (\<lambda>j. xs ! i - tb \<le> xs ! j \<and> xs ! j \<le> xs ! i + ta)
                              [0..<length xs]))) [0..<length xs]) [ys])"
    using len by (intro variable_freq_rows [OF _ _ ta]) simp_all
  show ?thesis
    unfolding mov_avg_time_variable_freq_def cs
    using ta by (simp add: bind_err_Inr arr rows)
qed

lemma length_fold_update:
  "length (fold (\<lambda>i zs. zs[i := f i]) js ys) = length ys"
  by (induction js arbitrary: ys) simp_all

lemma fold_update_nth:
  "k < length ys \<Longrightarrow>
   fold (\<lambda>i zs. zs[i := f i]) js ys ! k = (if k \<in> set js then f k else ys ! k)"
  by (induction js arbitrary: ys) (auto simp add: nth_list_update)

lemma ceiling_half: "\<lceil>real_of_int k / 2\<rceil> = (k + 1) div 2"
proof -
  have "\<lceil>real_of_int k / real_of_int 2\<rceil> = - (- k div 2)"
    by (rule ceiling_divide_eq_div)
  then show ?thesis by simp
qed

lemma norm_index_neg: "0 < s \<Longrightarrow> norm_index n (- s) = n - nat s"
  by (simp add: norm_index_def max_def) linarith

lemma norm_index_pos: "0 \<le> s \<Longrightarrow> norm_index n s = min (nat s) n"
  by (simp add: norm_index_def)

lemma shift_pos:
  assumes s: "0 < s"
  shows "bind_err (set_slice u None (Some (- s)) (get_slice u (Some s) None))
           (\<lambda>y. Inr (fill_slice y (Some (- s)) None None))
         = Inr (drop (nat s) u @ replicate (min (nat s) (length u)) None)"
proof -
  let ?n = "length u" and ?m = "nat s"
  have b1: "slice_bounds ?n None (Some (- s)) = (0, ?n - ?m)"
    using s by (simp add: slice_bounds_def norm_index_neg)
  have b2: "slice_bounds ?n (Some s) None = (min ?m ?n, ?n)"
    using s by (simp add: slice_bounds_def norm_index_pos)
  have g: "get_slice u (Some s) None = drop ?m u"
    unfolding get_slice_def b2 by (cases "?m \<le> ?n") (simp_all add: min_def)
  have st: "set_slice u None (Some (- s)) (drop ?m u) = Inr (drop ?m u @ drop (?n - ?m) u)"
    unfolding set_slice_def b1 by simp
  let ?v = "drop ?m u @ drop (?n - ?m) u"
  have lv: "length ?v = ?n" by simp
  have b3: "slice_bounds (length ?v) (Some (- s)) None = (?n - ?m, ?n)"
    unfolding lv using s by (simp add: slice_bounds_def norm_index_neg)
  have f: "fill_slice ?v (Some (- s)) None None
           = drop ?m u @ replicate (min ?m ?n) None"
    unfolding fill_slice_def b3 by (simp add: min_def)
  show ?thesis
    unfolding g st by (simp add: bind_err_def f)
qed

lemma shift_neg:
  assumes s: "s < 0"
  shows "bind_err (set_slice u (Some (- s)) None (get_slice u None (Some s)))
           (\<lambda>y. Inr (fill_slice y None (Some (- s)) None))
         = Inr (replicate (min (nat (- s)) (length u)) None @ take (length u - nat (- s)) u)"
proof -
  let ?n = "length u" and ?m = "nat (- s)"
  have s': "0 < - s" "s = - (- s)" using s by simp_all
  have b1: "slice_bounds ?n None (Some s) = (0, ?n - ?m)"
    using norm_index_neg [OF s'(1), of ?n] by (simp add: slice_bounds_def)
  have b2: "slice_bounds ?n (Some (- s)) None = (min ?m ?n, ?n)"
    using s by (simp add: slice_bounds_def norm_index_pos)
  have g: "get_slice u None (Some s) = take (?n - ?m) u"
    unfolding get_slice_def b1 by simp
  have st: "set_slice u (Some (- s)) None (take (?n - ?m) u)
            = Inr (take (min ?m ?n) u @ take (?n - ?m) u)"
    unfolding set_slice_def b2 using s by (auto simp add: min_def)
  let ?v = "take (min ?m ?n) u @ take (?n - ?m) u"
  have lv: "length ?v = ?n" using s by (auto simp add: min_def)
  have b3: "slice_bounds (length ?v) None (Some (- s)) = (0, min ?m ?n)"
    unfolding lv using s by (simp add: slice_bounds_def norm_index_pos)
  have f: "fill_slice ?v None (Some (- s)) None
           = replicate (min ?m ?n) None @ take (?n - ?m) u"
    unfolding fill_slice_def b3 by (simp add: min_def)
  show ?thesis
    unfolding g st by (simp add: bind_err_def f)
qed

lemma reflect_index_inside: "0 \<le> k \<Longrightarrow> k < int n \<Longrightarrow> reflect_index n k = nat k"
  by (simp add: reflect_index_def Let_def)

lemma window_mean_nth:
  assumes "0 \<le> b" "0 \<le> a" "i < length y"
  shows "window_mean y b a i =
         nanmean (map ((!) y) [nat (max (int i - b) 0)
                               ..<Suc (nat (min (int i + a) (int (length y) - 1)))])"
proof -
  let ?n = "length y"
  let ?lo = "nat (max (int i - b) 0)"
  let ?hi = "Suc (nat (min (int i + a) (int ?n - 1)))"
  have lo: "norm_index ?n (max (int i - b) 0) = ?lo"
    using assms by (auto simp add: norm_index_def max_def)
  have hi: "norm_index ?n (min (int i + a) (int ?n) + 1) = ?hi"
    using assms by (auto simp add: norm_index_def min_def)
  have hi_le: "?hi \<le> ?n" using assms by (auto simp add: min_def)
  show ?thesis
    unfolding window_mean_def py_slice_def Let_def lo hi
    by (simp only: take_drop_nth_upt [OF hi_le])
qed

lemma uniform_window_interior:
  assumes b: "0 \<le> b" and a: "0 \<le> a" and lo: "b \<le> int i"
    and hi: "int i + a < int (length y)"
  shows "nanmean (map (\<lambda>j. y ! reflect_index (length y) (int i - b + int j))
                      [0..<nat (b + a + 1)])
         = window_mean y b a i"
proof -
  let ?n = "length y" and ?lo = "nat (int i - b)" and ?m = "nat (b + a + 1)"
  have i: "i < ?n" using a hi by simp
  have "map (\<lambda>j. y ! reflect_index ?n (int i - b + int j)) [0..<?m]
        = map (\<lambda>j. y ! (j + ?lo)) [0..<?m]"
  proof (rule map_cong [OF refl])
    fix j assume "j \<in> set [0..<?m]"
    then have j: "int j \<le> b + a" by simp
    have "reflect_index ?n (int i - b + int j) = nat (int i - b + int j)"
      using lo hi j by (intro reflect_index_inside) simp_all
    also have "\<dots> = j + ?lo" using lo by simp
    finally show "y ! reflect_index ?n (int i - b + int j) = y ! (j + ?lo)" by simp
  qed
  also have "\<dots> = map ((!) y) (map (\<lambda>j. j + ?lo) [0..<?m])"
    by (simp add: comp_def)
  also have "map (\<lambda>j. j + ?lo) [0..<?m] = [?lo..<?m + ?lo]"
    by (rule map_add_upt)
  finally have w: "map (\<lambda>j. y ! reflect_index ?n (int i - b + int j)) [0..<?m]
        = map ((!) y) [?lo..<?m + ?lo]" .
  have lo': "nat (max (int i - b) 0) = ?lo" using lo by simp
  have hi': "Suc (nat (min (int i + a) (int ?n - 1))) = ?m + ?lo"
    using a b lo hi by (simp add: min_def)
  have wm: "window_mean y b a i = nanmean (map ((!) y) [?lo..<?m + ?lo])"
    using window_mean_nth [OF b a i] unfolding lo' hi' .
  show ?thesis
    unfolding w wm by (rule refl)
qed

lemma fold_add_s:
  "fold (\<lambda>v tmp. add_s tmp v) (map Some xs) (Some c) = Some (c + sum_list xs)"
  by (induction xs arbitrary: c) (simp_all add: add_s_def add.assoc)

lemma window_sum_step:
  fixes r :: "nat \<Rightarrow> real"
  assumes "0 < sz"
  shows "sum_list (map r [Suc l..<Suc l + sz])
         = sum_list (map r [l..<l + sz]) + (r (l + sz) - r l)"
proof -
  have a: "[l..<l + sz] = l # [Suc l..<l + sz]"
    using assms by (simp add: upt_conv_Cons)
  have b: "[Suc l..<Suc l + sz] = [Suc l..<l + sz] @ [l + sz]"
    using assms by simp
  show ?thesis unfolding a b by simp
qed

lemma running_sum_fold:
  fixes r :: "nat \<Rightarrow> real"
  assumes il: "\<And>k. k < n + sz - 1 \<Longrightarrow> iline ! k = Some (r k)" and sz: "0 < sz"
    and m: "1 \<le> m" "m \<le> n"
  shows "fold (\<lambda>ll (tmp, oline).
                 let tmp = add_s tmp (sub_s (iline ! (ll + sz - 1)) (iline ! (ll - 1)))
                 in (tmp, oline @ [div_s tmp sz]))
              [1..<m]
              (Some (sum_list (map r [0..<0 + sz])),
               [div_s (Some (sum_list (map r [0..<0 + sz]))) sz])
         = (Some (sum_list (map r [m - 1..<m - 1 + sz])),
            map (\<lambda>l. Some (sum_list (map r [l..<l + sz]) / real sz)) [0..<m])"
  using m
proof (induction m)
  case 0
  then show ?case by simp
next
  case (Suc m)
  show ?case
  proof (cases "m = 0")
    case True
    then show ?thesis by (simp add: div_s_def)
  next
    case False
    then have m1: "1 \<le> m" "m \<le> n" using Suc.prems by simp_all
    have up: "[1..<Suc m] = [1..<m] @ [m]" using m1 by simp
    have i1: "iline ! (m + sz - 1) = Some (r (m + sz - 1))"
      using Suc.prems sz by (intro il) simp
    have i2: "iline ! (m - 1) = Some (r (m - 1))"
      using Suc.prems sz by (intro il) simp
    have st: "sum_list (map r [m - 1..<m - 1 + sz]) + (r (m + sz - 1) - r (m - 1))
              = sum_list (map r [m..<m + sz])"
      using window_sum_step [OF sz, of r "m - 1"] m1 by simp
    show ?thesis
      unfolding up fold_append comp_def Suc.IH [OF m1]
      using i1 i2 st by (simp add: add_s_def sub_s_def div_s_def)
  qed
qed

lemma reflect_index_lt: "0 < n \<Longrightarrow> reflect_index n k < n"
proof -
  assume n: "0 < n"
  have "k mod (2 * int n) < 2 * int n" using n by simp
  moreover have "0 \<le> k mod (2 * int n)" using n by simp
  ultimately have "nat (k mod (2 * int n)) < 2 * n" by linarith
  then show ?thesis by (auto simp add: reflect_index_def Let_def)
qed

lemma present_map_Some: "present (map Some xs) = xs"
  by (induction xs) simp_all

lemma nanmean_map_Some:
  "0 < sz \<Longrightarrow>
   nanmean (map (\<lambda>j. Some (f j)) [0..<sz]) = Some (sum_list (map f [0..<sz]) / real sz)"
  using present_map_Some [of "map f [0..<sz]"]
  by (simp add: nanmean_def Let_def comp_def)

lemma running_sum_finite:
  fixes r :: "nat \<Rightarrow> real"
  assumes il: "\<And>k. k < n + fs - 1 \<Longrightarrow> iline ! k = Some (r k)"
    and len: "length iline = n + fs - 1" and fs: "0 < fs" and n: "0 < n"
  shows "running_sum iline fs n
         = map (\<lambda>l. Some (sum_list (map r [l..<l + fs]) / real fs)) [0..<n]"
proof -
  have tk: "take fs iline = map Some (map r [0..<fs])"
  proof (rule nth_equalityI)
    show "length (take fs iline) = length (map Some (map r [0..<fs]))"
      using len n by simp
    show "take fs iline ! k = map Some (map r [0..<fs]) ! k" if "k < length (take fs iline)" for k
      using that il [of k] n len by simp
  qed
  have t0: "fold (\<lambda>v tmp. add_s tmp v) (take fs iline) (Some 0)
            = Some (sum_list (map r [0..<0 + fs]))"
    unfolding tk using fold_add_s [of "map r [0..<fs]" 0] by simp
  have run: "fold (\<lambda>ll (tmp, oline).
                 let tmp = add_s tmp (sub_s (iline ! (ll + fs - 1)) (iline ! (ll - 1)))
                 in (tmp, oline @ [div_s tmp fs]))
              [1..<n]
              (Some (sum_list (map r [0..<0 + fs])),
               [div_s (Some (sum_list (map r [0..<0 + fs]))) fs])
         = (Some (sum_list (map r [n - 1..<n - 1 + fs])),
            map (\<lambda>l. Some (sum_list (map r [l..<l + fs]) / real fs)) [0..<n])"
  proof (rule running_sum_fold [where n = n and sz = fs and iline = iline and r = r and m = n])
    show "iline ! k = Some (r k)" if "k < n + fs - 1" for k using that by (rule il)
    show "0 < fs" by (rule fs)
    show "1 \<le> n" using n by simp
    show "n \<le> n" by simp
  qed
  show ?thesis
    using t0 run by (simp add: running_sum_def Let_def)
qed

lemma uniform_filter1d_finite:
  assumes nn: "None \<notin> set input" and sz: "1 \<le> size_w"
  shows "uniform_filter1d input size_w =
         Inr (map (\<lambda>i. nanmean (map (\<lambda>j. input ! reflect_index (length input)
                                              (int i - size_w div 2 + int j))
                                    [0..<nat size_w]))
                  [0..<length input])"
proof (cases "input = []")
  case True
  then show ?thesis using sz by (simp add: uniform_filter1d_def)
next
  case False
  define n where "n = length input"
  define fs where "fs = nat size_w"
  define size1 where "size1 = fs div 2"
  define r where "r = (\<lambda>k. the (input ! reflect_index n (int k - int size1)))"
  define iline where "iline = map (\<lambda>k. input ! reflect_index n (int k - int size1))
                                  [0..<n + fs - 1]"
  have n: "0 < n" using False by (simp add: n_def)
  have fs: "0 < fs" using sz by (simp add: fs_def)
  have s1: "int size1 = size_w div 2"
    using sz by (simp add: size1_def fs_def zdiv_int)
  have some: "input ! reflect_index n k = Some (the (input ! reflect_index n k))" for k
  proof -
    have "input ! reflect_index n k \<in> set input"
      using reflect_index_lt [OF n, of k] by (simp add: n_def)
    then have "input ! reflect_index n k \<noteq> None" using nn by metis
    then show ?thesis by simp
  qed
  have il: "iline ! k = Some (r k)" if "k < n + fs - 1" for k
    using that some by (simp add: iline_def r_def)
  have rs: "running_sum iline fs n
            = map (\<lambda>l. Some (sum_list (map r [l..<l + fs]) / real fs)) [0..<n]"
    by (rule running_sum_finite [OF il _ fs n]) (simp_all add: iline_def)
  have lhs: "uniform_filter1d input size_w = Inr (running_sum iline fs n)"
    using sz False
    unfolding uniform_filter1d_def Let_def iline_def fs_def size1_def n_def
    by simp
  have win: "nanmean (map (\<lambda>j. input ! reflect_index n (int i - size_w div 2 + int j)) [0..<fs])
             = Some (sum_list (map r [i..<i + fs]) / real fs)" for i
  proof -
    have a: "map (\<lambda>j. input ! reflect_index n (int i - size_w div 2 + int j)) [0..<fs]
             = map (\<lambda>j. Some (r (j + i))) [0..<fs]"
      using some by (simp add: r_def s1 algebra_simps)
    have b: "map r [i..<i + fs] = map (\<lambda>j. r (j + i)) [0..<fs]"
    proof -
      have "[i..<i + fs] = map (\<lambda>j. j + i) [0..<fs]"
        by (simp only: map_add_upt add.commute [of i fs])
      then show ?thesis by (simp add: comp_def)
    qed
    show ?thesis
      unfolding a b by (rule nanmean_map_Some [OF fs])
  qed
  show ?thesis
    unfolding lhs rs by (simp add: n_def [symmetric] fs_def [symmetric] win)
qed

lemma shifted_nth:
  assumes len: "length u = n" and i: "i < n"
    and lo: "0 \<le> int i + s" and hi: "int i + s < int n"
  shows "(if 0 < s then drop (nat s) u @ replicate (min (nat s) n) None
          else if s < 0 then replicate (min (nat (- s)) n) None @ take (n - nat (- s)) u
          else u) ! i = u ! nat (int i + s)"
proof (cases "0 < s")
  case True
  then have "i < length (drop (nat s) u)" using len hi by simp
  then show ?thesis using True len hi
    by (simp add: nth_append nat_add_distrib add.commute)
next
  case False
  show ?thesis
  proof (cases "s < 0")
    case True
    then have m: "nat (- s) \<le> i" using lo by linarith
    then have "min (nat (- s)) n = nat (- s)" using i by simp
    moreover have "i - nat (- s) < n - nat (- s)" using m i by simp
    moreover have "nat (int i + s) = i - nat (- s)" using True m by linarith
    ultimately show ?thesis using True m len
      by (simp add: nth_append)
  next
    case False
    with \<open>\<not> 0 < s\<close> have "s = 0" by simp
    then show ?thesis by simp
  qed
qed

lemma shift_stage:
  "bind_err
     (if 0 < s
      then bind_err (set_slice u None (Some (- s)) (get_slice u (Some s) None))
             (\<lambda>y_filt. Inr (fill_slice y_filt (Some (- s)) None None))
      else Inr u)
     (\<lambda>y_filt.
        bind_err
          (if s < 0
           then bind_err (set_slice y_filt (Some (- s)) None (get_slice y_filt None (Some s)))
                  (\<lambda>y_filt. Inr (fill_slice y_filt None (Some (- s)) None))
           else Inr y_filt) K)
   = K (if 0 < s then drop (nat s) u @ replicate (min (nat s) (length u)) None
        else if s < 0
          then replicate (min (nat (- s)) (length u)) None @ take (length u - nat (- s)) u
          else u)"
proof -
  consider (pos) "0 < s" | (neg) "s < 0" | (zero) "s = 0" by linarith
  then show ?thesis
  proof cases
    case pos
    then show ?thesis by (simp add: bind_err_Inr shift_pos)
  next
    case neg
    then show ?thesis by (simp add: bind_err_Inr shift_neg)
  next
    case zero
    then show ?thesis by (simp add: bind_err_Inr)
  qed
qed

lemma mov_avg_no_nan_steps:
  fixes y :: series and b a :: int
  assumes nn: "None \<notin> set y" and b: "0 \<le> b" and a: "0 \<le> a"
  defines "s \<equiv> (a - b + 1) div 2"
  defines "u \<equiv> map (\<lambda>i. nanmean (map (\<lambda>j. y ! reflect_index (length y)
                                              (int i - (b + a + 1) div 2 + int j))
                                   [0..<nat (b + a + 1)]))
                 [0..<length y]"
  shows "mov_avg_no_nan y b a =
         Inr (fold (\<lambda>i zs. zs[i := window_mean y b a i])
                (rev [Suc (nat (max 0 (int (length y) - a - \<bar>s\<bar> - 1)))..<length y])
                (fold (\<lambda>i zs. zs[i := window_mean y b a i])
                   [0..<nat (min (b + \<bar>s\<bar>) (int (length y)))]
                   (if 0 < s then drop (nat s) u @ replicate (min (nat s) (length u)) None
                    else if s < 0
                      then replicate (min (nat (- s)) (length u)) None
                           @ take (length u - nat (- s)) u
                      else u)))"
proof -
  have a1: "a \<noteq> - 1" using a by simp
  have uf: "uniform_filter1d y (b + a + 1) = Inr u"
    unfolding u_def using a b by (intro uniform_filter1d_finite [OF nn]) simp
  have sh: "\<lceil>real_of_int (a - b) / 2\<rceil> = s"
    by (simp only: ceiling_half s_def)
  show ?thesis
    unfolding mov_avg_no_nan_def Let_def
    by (simp only: if_not_P [OF a1] uf bind_err_Inr sh shift_stage)
qed

lemma mov_avg_no_nan_eq_loop:
  fixes y :: series and b a :: int
  assumes nn: "None \<notin> set y" and b: "0 \<le> b" and a: "0 \<le> a"
  shows "mov_avg_no_nan y b a = Inr (mov_avg_loop y b a)"
proof -
  define n where "n = length y"
  define s where "s = (a - b + 1) div 2"
  define u where "u = map (\<lambda>i. nanmean (map (\<lambda>j. y ! reflect_index (length y)
                                              (int i - (b + a + 1) div 2 + int j))
                                   [0..<nat (b + a + 1)]))
                 [0..<length y]"
  define y1 where "y1 = (if 0 < s then drop (nat s) u @ replicate (min (nat s) (length u)) None
                    else if s < 0
                      then replicate (min (nat (- s)) (length u)) None
                           @ take (length u - nat (- s)) u
                      else u)"
  define L1 where "L1 = [0..<nat (min (b + \<bar>s\<bar>) (int (length y)))]"
  define L2 where "L2 = rev [Suc (nat (max 0 (int (length y) - a - \<bar>s\<bar> - 1)))..<length y]"
  define z where "z = fold (\<lambda>i zs. zs[i := window_mean y b a i]) L2
                        (fold (\<lambda>i zs. zs[i := window_mean y b a i]) L1 y1)"
  have fast: "mov_avg_no_nan y b a = Inr z"
    unfolding z_def L1_def L2_def y1_def u_def s_def
    by (rule mov_avg_no_nan_steps [OF nn b a])
  have lu: "length u = n" by (simp add: u_def n_def)
  have ly1: "length y1 = n"
    unfolding y1_def lu by (auto simp add: lu min_def)
  have lz: "length z = n"
    by (simp add: z_def length_fold_update ly1)
  have a1: "a \<noteq> - 1" using a by simp
  have loop: "mov_avg_loop y b a = map (window_mean y b a) [0..<n]"
    using a1 by (simp add: mov_avg_loop_map n_def)
  have nth: "z ! i = window_mean y b a i" if i: "i < n" for i
  proof -
    have zi: "z ! i = (if i \<in> set L2 then window_mean y b a i
                       else if i \<in> set L1 then window_mean y b a i else y1 ! i)"
      using i by (simp add: z_def fold_update_nth length_fold_update ly1)
    show ?thesis
    proof (cases "i \<in> set L1 \<or> i \<in> set L2")
      case True
      then show ?thesis using zi by auto
    next
      case False
      then have n1: "i \<notin> set L1" and n2: "i \<notin> set L2" by auto
      have lo: "b + \<bar>s\<bar> \<le> int i"
        using n1 i by (auto simp add: L1_def n_def min_def split: if_splits)
      have up: "int i \<le> max 0 (int n - a - \<bar>s\<bar> - 1)"
        using n2 i by (auto simp add: L2_def n_def)
      have inner: "0 \<le> int n - a - \<bar>s\<bar> - 1"
      proof (rule ccontr)
        assume "\<not> 0 \<le> int n - a - \<bar>s\<bar> - 1"
        then have "int i \<le> 0" using up by simp
        then have "b = 0" "s = 0" using lo b by linarith+
        then have "a = 0" using a unfolding s_def by presburger
        with \<open>\<not> 0 \<le> int n - a - \<bar>s\<bar> - 1\<close> \<open>s = 0\<close> i show False by simp
      qed
      then have hi: "int i + a + \<bar>s\<bar> < int n" using up by simp
      have s_lo: "0 \<le> int i + s" using lo b by linarith
      have s_hi: "int i + s < int n" using hi a by linarith
      have "y1 ! i = u ! nat (int i + s)"
        unfolding y1_def lu by (rule shifted_nth [OF lu i s_lo s_hi])
      also have "\<dots> = nanmean (map (\<lambda>j. y ! reflect_index (length y)
                            (int (nat (int i + s)) - (b + a + 1) div 2 + int j))
                          [0..<nat (b + a + 1)])"
      proof -
        have k: "nat (int i + s) < length y" using s_lo s_hi by (simp add: n_def)
        show ?thesis unfolding u_def by (simp only: nth_map length_upt diff_zero k nth_upt add_0)
      qed
      also have "int (nat (int i + s)) - (b + a + 1) div 2 = int i - b"
        using s_lo unfolding s_def by simp
      also have "nanmean (map (\<lambda>j. y ! reflect_index (length y) (int i - b + int j))
                         [0..<nat (b + a + 1)]) = window_mean y b a i"
        using lo hi by (intro uniform_window_interior [OF b a]) (simp_all add: n_def)
      finally show ?thesis using zi n1 n2 by simp
    qed
  qed
  have "z = map (window_mean y b a) [0..<n]"
    by (rule nth_equalityI) (simp_all add: lz nth)
  then show ?thesis by (simp add: fast loop)
qed

lemma length_upd_vec: "length (upd_vec a f st) = length st"
  by (simp add: upd_vec_def)

lemma take_upd_vec: "n \<le> a \<Longrightarrow> take n (upd_vec a f st) = take n st"
  by (simp add: upd_vec_def)

lemma fix_samples_frame:
  "n \<le> y_filt \<Longrightarrow> take n (fix_samples y y_filt b a js st) = take n st"
  unfolding fix_samples_def
  by (induction js arbitrary: st) (simp_all add: take_upd_vec)

lemma length_fix_samples: "length (fix_samples y y_filt b a js st) = length st"
  unfolding fix_samples_def
  by (induction js arbitrary: st) (simp_all add: length_upd_vec)

lemma mov_avg_loop_h_frame:
  "take (length st) (snd (mov_avg_loop_h y b a st)) = st
   \<and> fst (mov_avg_loop_h y b a st) = length st
   \<and> length (snd (mov_avg_loop_h y b a st)) = Suc (length st)"
  by (simp add: mov_avg_loop_h_def alloc_def Let_def fix_samples_frame length_fix_samples)

lemma shift_in_place_frame:
  "n \<le> y_filt \<Longrightarrow> take n (snd (shift_in_place y_filt s st)) = take n st"
  by (auto simp add: shift_in_place_def take_upd_vec split: sum.splits)

lemma length_shift_in_place: "length (snd (shift_in_place y_filt s st)) = length st"
  by (auto simp add: shift_in_place_def length_upd_vec split: sum.splits)

lemma mov_avg_no_nan_h_frame:
  "take (length st) (snd (mov_avg_no_nan_h y b a st)) = st
   \<and> (case fst (mov_avg_no_nan_h y b a st) of Inl e \<Rightarrow> True
       | Inr r \<Rightarrow> length st \<le> r \<and> r < length (snd (mov_avg_no_nan_h y b a st)))"
proof -
  define sa where "sa = (if a = - 1 then b else a)"
  show ?thesis
  proof (cases "uniform_filter1d (get_vec st y) (b + sa + 1)")
    case (Inl e)
    then show ?thesis by (simp add: mov_avg_no_nan_h_def Let_def sa_def)
  next
    case u: (Inr u)
    define s where "s = \<lceil>real_of_int (sa - b) / 2\<rceil>"
    define p where "p = shift_in_place (length st) s (st @ [Vec u])"
    have tp: "take (length st) (snd p) = st"
      unfolding p_def
      using shift_in_place_frame [of "length st" "length st" s "st @ [Vec u]"] by simp
    have lp: "length (snd p) = Suc (length st)"
      unfolding p_def by (simp add: length_shift_in_place)
    define q where "q = fix_last y (length st) b sa s (fix_first y (length st) b sa s (snd p))"
    have tq: "take (length st) q = st"
      unfolding q_def fix_last_def fix_first_def by (simp add: fix_samples_frame tp)
    have lq: "length q = Suc (length st)"
      unfolding q_def fix_last_def fix_first_def by (simp add: length_fix_samples lp)
    have res: "mov_avg_no_nan_h y b a st =
               (case fst p of Inl e \<Rightarrow> (Inl e, snd p) | Inr _ \<Rightarrow> (Inr (length st), q))"
      using u unfolding sa_def
      by (simp add: mov_avg_no_nan_h_def Let_def alloc_def sa_def
            s_def p_def q_def case_prod_unfold
            cong del: sum.case_cong_weak)
    show ?thesis
      unfolding res using tp lp tq lq by (cases "fst p") simp_all
  qed
qed

lemma mov_avg_h_frame:
  "take (length st) (snd (mov_avg_h y b a st)) = st
   \<and> (case fst (mov_avg_h y b a st) of Inl e \<Rightarrow> True
       | Inr r \<Rightarrow> length st \<le> r \<and> r < length (snd (mov_avg_h y b a st)))"
  using mov_avg_loop_h_frame [of st y b "- 1"]
  by (simp add: mov_avg_h_def isnan_any_def split_def)

lemma mov_avg_time_h_frame:
  "take (length st) (snd (mov_avg_time_h y freq tb ta st)) = st
   \<and> (case fst (mov_avg_time_h y freq tb ta st) of Inl e \<Rightarrow> True
       | Inr r \<Rightarrow> length st \<le> r \<and> r < length (snd (mov_avg_time_h y freq tb ta st)))"
proof (cases "py_int (fmul tb freq)")
  case (Inl e)
  then show ?thesis by (simp add: mov_avg_time_h_def)
next
  case sb: (Inr sb)
  show ?thesis
  proof (cases "if ta \<noteq> Fin (- 1) then py_int (fmul ta freq) else Inr (- 1)")
    case (Inl e)
    then show ?thesis using sb by (simp add: mov_avg_time_h_def)
  next
    case (Inr sa)
    then have eq: "mov_avg_time_h y freq tb ta st = mov_avg_h y sb sa st"
      using sb by (simp add: mov_avg_time_h_def)
    show ?thesis unfolding eq by (rule mov_avg_h_frame)
  qed
qed

lemma variable_freq_step_frame:
  assumes "n \<le> filt" "n \<le> length st"
  shows "take n (snd (variable_freq_step x arr filt tb ta i st)) = take n st
         \<and> length st < length (snd (variable_freq_step x arr filt tb ta i st))"
proof -
  define w where "w = upd_vec (length st) (set_nan_where
                 (\<lambda>s. lt_sample (map_option (\<lambda>t. t + ta) (get_vec st x ! i)) s))
               (upd_vec (length st) (set_nan_where
                 (\<lambda>s. lt_sample s (map_option (\<lambda>t. t - tb) (get_vec st x ! i))))
                  (st @ [Vec (get_vec st x)]))"
  have tw: "take n w = take n st" using assms(2) by (simp add: w_def take_upd_vec)
  have lw: "length w = Suc (length st)" by (simp add: w_def length_upd_vec)
  define ix where "ix = filter (\<lambda>j. get_vec w (length st) ! j \<noteq> None)
                           [0..<length (get_vec w (length st))]"
  have res: "variable_freq_step x arr filt tb ta i st =
             (case column_means (get_mat w arr) ix of
                Inl e \<Rightarrow> (Inl e, w)
              | Inr col \<Rightarrow>
                  (case set_column (get_mat w filt) i col of
                     Inl e \<Rightarrow> (Inl e, w)
                   | Inr m \<Rightarrow> (Inr (), w[filt := Mat m])))"
    by (simp add: variable_freq_step_def Let_def alloc_def w_def ix_def
          cong del: sum.case_cong_weak)
  show ?thesis
    unfolding res using tw lw assms(1)
    by (auto split: sum.splits)
qed

lemma variable_freq_fold_frame:
  assumes "n \<le> filt" "n \<le> length st"
  shows "take n (snd (fold (\<lambda>i (r, st). case r of
                          Inl e \<Rightarrow> (Inl e, st)
                        | Inr _ \<Rightarrow> variable_freq_step x arr filt tb ta i st) js (r0, st)))
           = take n st
         \<and> length st \<le> length (snd (fold (\<lambda>i (r, st). case r of
                          Inl e \<Rightarrow> (Inl e, st)
                        | Inr _ \<Rightarrow> variable_freq_step x arr filt tb ta i st) js (r0, st)))"
  using assms(2)
proof (induction js arbitrary: r0 st)
  case Nil
  then show ?case by simp
next
  case (Cons j js)
  show ?case
  proof (cases r0)
    case (Inl e)
    then show ?thesis using Cons.IH [OF Cons.prems, of "Inl e"] by simp
  next
    case (Inr v)
    let ?p = "variable_freq_step x arr filt tb ta j st"
    have st: "take n (snd ?p) = take n st" "length st < length (snd ?p)"
      using variable_freq_step_frame [OF assms(1) Cons.prems] by auto
    then have n: "n \<le> length (snd ?p)" using Cons.prems by simp
    show ?thesis
      using Cons.IH [OF n, of "fst ?p"] st Inr by simp
  qed
qed


lemma mov_avg_time_variable_freq_h_frame:
  "take (length st) (snd (mov_avg_time_variable_freq_h x l tb ta st)) = st
   \<and> (case fst (mov_avg_time_variable_freq_h x l tb ta st) of Inl e \<Rightarrow> True
       | Inr r \<Rightarrow> length st \<le> r
                  \<and> r < length (snd (mov_avg_time_variable_freq_h x l tb ta st)))"
proof (cases "containsScalars_h st l")
  case (Inl e)
  then show ?thesis by (simp add: mov_avg_time_variable_freq_h_def)
next
  case (Inr flag)
  define rows0 where "rows0 = (case l of SingleH a \<Rightarrow> [get_vec st a]
                             | BatchH as \<Rightarrow> map (get_vec st) as)"
  define ta' where "ta' = (if ta = - 1 then tb else ta)"
  define st1 where "st1 = st @ [Vec (get_vec st x)]"
  show ?thesis
  proof (cases "np_array rows0")
    case (Inl e)
    then show ?thesis
      using Inr by (simp add: mov_avg_time_variable_freq_h_def alloc_def rows0_def Let_def)
  next
    case rows: (Inr rows)
    define st3 where "st3 = st1 @ [Mat rows] @ [Mat (get_mat (st1 @ [Mat rows]) (length st1))]"
    define p where "p = fold (\<lambda>i (r, s). case r of
                          Inl e \<Rightarrow> (Inl e, s)
                        | Inr _ \<Rightarrow> variable_freq_step (length st) (length st1)
                                    (Suc (length st1)) tb ta' i s)
                     [0..<length (get_vec st3 (length st))] (Inr (), st3)"
    have res: "mov_avg_time_variable_freq_h x l tb ta st =
               (case fst p of Inl e \<Rightarrow> (Inl e, snd p)
                | Inr _ \<Rightarrow> (Inr (Suc (length st1)), snd p))"
      using Inr rows
      by (simp add: mov_avg_time_variable_freq_h_def alloc_def Let_def
            rows0_def [symmetric] ta'_def [symmetric] st1_def [symmetric] st3_def p_def
            case_prod_unfold cong del: sum.case_cong_weak)
    have l3: "length st3 = length st + 3" by (simp add: st3_def st1_def)
    have fr: "take (length st) (snd p) = take (length st) st3
              \<and> length st3 \<le> length (snd p)"
      unfolding p_def
      by (rule variable_freq_fold_frame) (simp_all add: l3 st1_def)
    have t3: "take (length st) st3 = st" by (simp add: st3_def st1_def)
    show ?thesis
      unfolding res using fr t3 l3 by (cases "fst p") (simp_all add: st1_def)
  qed
qed

lemma fin_zero: "fin 0 = Fin 0"
  by (simp add: fin_def float_overflow_def)

lemma fin_small: "\<bar>r\<bar> \<le> 1000 \<Longrightarrow> fin r = Fin r"
  by (simp add: fin_def float_overflow_def)

lemma mov_avg_time_overflow:
  "mov_avg_time y (Fin (10 ^ 200)) (Fin (10 ^ 200)) time_after = Inl OverflowError"
  by (simp add: mov_avg_time_def fin_def float_overflow_def bind_err_Inl)

section \<open>The dispatcher\<close>

text \<open>
  C1 (dispatcher contract).  The claim: \<open>mov_avg\<close> returns the exact path on
  \<open>y\<close> with the caller's \<open>(before, after)\<close> when \<open>y\<close> has a missing value, and the
  fast path with the same \<open>(before, after)\<close> when it has none.  The code does
  neither with the caller's \<open>after\<close>: on \<open>y = [1, NaN, 3]\<close>, \<open>before = 1\<close>,
  \<open>after = 0\<close> the dispatcher answers \<open>[1, 2, 3]\<close>, the exact path with window
  \<open>(1, 1)\<close>, where the exact path with the caller's window \<open>(1, 0)\<close> gives
  \<open>[1, 1, 3]\<close>.
\<close>

theorem mov_avg_drops_samples_after:
  "mov_avg [Some 1, None, Some 3] 1 0 = Inr [Some 1, Some 2, Some 3]
   \<and> mov_avg_loop [Some 1, None, Some 3] 1 0 = [Some 1, Some 1, Some 3]"
  by (simp add: mov_avg_def isnan_any_def eval_loop)

section \<open>The exact path\<close>

text \<open>
  C3 (exact windowed mean).  For a series \<open>y\<close> of length \<open>n\<close> and a window
  \<open>(b, a)\<close> with \<open>b \<ge> 0\<close> and \<open>a \<ge> 0\<close>, the output of \<open>mov_avg_loop\<close> at every index
  \<open>i < n\<close> is the mean of the samples of \<open>y\<close> at \<open>max(i-b, 0), \<dots>, min(i+a, n-1)\<close>
  that are not missing, and it is missing when all of them are; and on
  \<open>y = [1, NaN, 3]\<close> with window \<open>(1, 1)\<close> the output is \<open>[1, 2, 3]\<close>.
\<close>

theorem mov_avg_loop_exact_mean:
  "(\<forall>y b a i. 0 \<le> b \<and> 0 \<le> a \<and> i < length y \<longrightarrow>
      mov_avg_loop y b a ! i =
        (let w = map ((!) y) [nat (max (int i - b) 0)
                              ..<Suc (nat (min (int i + a) (int (length y) - 1)))]
         in if \<forall>s\<in>set w. s = None then None
            else Some (sum_list (present w) / real (length (present w)))))
   \<and> mov_avg_loop [Some 1, None, Some 3] 1 1 = [Some 1, Some 2, Some 3]"
proof (intro conjI allI impI)
  fix y :: series and b a :: int and i :: nat
  assume h: "0 \<le> b \<and> 0 \<le> a \<and> i < length y"
  let ?n = "length y"
  let ?lo = "nat (max (int i - b) 0)"
  let ?hi = "Suc (nat (min (int i + a) (int ?n - 1)))"
  have a: "a \<noteq> - 1" using h by simp
  have "mov_avg_loop y b a ! i = window_mean y b a i"
    using h a by (simp add: mov_avg_loop_map)
  also have "\<dots> = nanmean (map ((!) y) [?lo..<?hi])"
    using h by (intro window_mean_nth) simp_all
  finally show "mov_avg_loop y b a ! i =
        (let w = map ((!) y) [?lo..<?hi]
         in if \<forall>s\<in>set w. s = None then None
            else Some (sum_list (present w) / real (length (present w))))"
    by (simp only: nanmean_def Let_def present_empty_iff)
next
  show "mov_avg_loop [Some 1, None, Some 3] 1 1 = [Some 1, Some 2, Some 3]"
    by (simp add: eval_loop)
qed

theorem mov_avg_loop_exact_mean_witness:
  "mov_avg_loop [Some 1, None, Some 3] 1 1 ! 1 = Some 2"
proof -
  have "0 \<le> (1::int) \<and> 0 \<le> (1::int) \<and> (1::nat) < length [Some (1::real), None, Some 3]"
    by simp
  then have "mov_avg_loop [Some 1, None, Some 3] 1 1 ! 1 =
        (let w = map ((!) [Some 1, None, Some 3])
                   [nat (max (int 1 - 1) 0)
                    ..<Suc (nat (min (int 1 + 1) (int (length [Some (1::real), None, Some 3]) - 1)))]
         in if \<forall>s\<in>set w. s = None then None
            else Some (sum_list (present w) / real (length (present w))))"
    using mov_avg_loop_exact_mean by blast
  then show ?thesis by (simp add: upt_rec)
qed

text \<open>
  C5 (zero-window identity).  For every series \<open>y\<close>, missing values included,
  \<open>mov_avg(y, 0, 0)\<close> returns \<open>y\<close>: every sample, missing or not, comes out as
  it went in.
\<close>

theorem mov_avg_zero_window: "mov_avg y 0 0 = Inr y"
proof -
  have "map (window_mean y 0 0) [0..<length y] = map ((!) y) [0..<length y]"
    by (rule map_cong) (simp_all add: window_mean_zero)
  then show ?thesis
    by (simp add: mov_avg_def isnan_any_def mov_avg_loop_map map_nth)
qed

section \<open>The fast path\<close>

text \<open>
  C2 (path equivalence).  The claim: for every series \<open>y\<close> without a missing
  value and every window \<open>(b, a)\<close> with \<open>b \<ge> 0\<close> and \<open>a \<ge> 0\<close>,
  \<open>mov_avg_no_nan\<close> and \<open>mov_avg_loop\<close> return the same value, up to rounding,
  at every index.  The docstring of \<open>mov_avg_no_nan\<close> says the same:
  \<open>Equivalent to mov_avg_loop but much faster\<close>.  The code does not do it on
  \<open>y = [inf, 1, 1, 1, 1, 1, 1]\<close>, which has no not-a-number, with
  \<open>b = a = 1\<close>.  The exact path takes a fresh mean at every index and returns
  \<open>[inf, inf, 1, 1, 1, 1, 1]\<close>.  The fast path returns
  \<open>[inf, nan, nan, nan, nan, nan, 1]\<close>: the running sum of the library filter
  is infinite at index 0, becomes \<open>inf - inf\<close> when the infinite sample leaves
  the window and is not-a-number from there on; only the two boundary
  indices are recomputed.  Every finite number that occurs on this input is
  1, 2 or 3, so no rounding is involved.  (On finite samples and in exact
  arithmetic the two paths do agree: lemma \<open>mov_avg_no_nan_eq_loop\<close>.)
\<close>

theorem fast_path_loses_samples_after_infinity:
  "NaN \<notin> set [PInf, Fin 1, Fin 1, Fin 1, Fin 1, Fin 1, Fin 1]
   \<and> mov_avg_no_nan_x [PInf, Fin 1, Fin 1, Fin 1, Fin 1, Fin 1, Fin 1] 1 1
       = Inr [PInf, NaN, NaN, NaN, NaN, NaN, Fin 1]
   \<and> mov_avg_loop_x [PInf, Fin 1, Fin 1, Fin 1, Fin 1, Fin 1, Fin 1] 1 1
       = [PInf, PInf, Fin 1, Fin 1, Fin 1, Fin 1, Fin 1]"
proof -
  let ?y = "[PInf, Fin 1, Fin 1, Fin 1, Fin 1, Fin 1, Fin 1]"
  have il: "map (\<lambda>k. ?y ! reflect_index (length ?y) (int k - int (nat 3 div 2)))
                [0..<length ?y + nat 3 - 1]
            = [PInf, PInf, Fin 1, Fin 1, Fin 1, Fin 1, Fin 1, Fin 1, Fin 1]"
    by (simp add: reflect_index_def Let_def upt_rec)
  have rs: "running_sum_x [PInf, PInf, Fin 1, Fin 1, Fin 1, Fin 1, Fin 1, Fin 1, Fin 1]
              (nat 3) (length ?y)
            = [PInf, NaN, NaN, NaN, NaN, NaN, NaN]"
    by (simp add: running_sum_x_def Let_def upt_rec fsub_def)
  have uf: "uniform_filter1d_x ?y 3 = Inr [PInf, NaN, NaN, NaN, NaN, NaN, NaN]"
    unfolding uniform_filter1d_x_def Let_def il rs by simp
  have nm3: "nanmean_x [Fin 1, Fin 1, Fin 1] = Fin 1"
    by (simp add: nanmean_x_def Let_def fin_small)
  have nm2: "nanmean_x [Fin 1, Fin 1] = Fin 1"
    by (simp add: nanmean_x_def Let_def fin_small)
  have w0: "window_mean_x ?y 1 1 0 = PInf"
    by (simp add: window_mean_x_def py_slice_def norm_index_def nanmean_x_def Let_def)
  have w1: "window_mean_x ?y 1 1 1 = PInf"
    by (simp add: window_mean_x_def py_slice_def norm_index_def nanmean_x_def Let_def fin_small)
  have w2: "window_mean_x ?y 1 1 2 = Fin 1"
    by (simp add: window_mean_x_def py_slice_def norm_index_def nm3)
  have w3: "window_mean_x ?y 1 1 3 = Fin 1"
    by (simp add: window_mean_x_def py_slice_def norm_index_def nm3)
  have w4: "window_mean_x ?y 1 1 4 = Fin 1"
    by (simp add: window_mean_x_def py_slice_def norm_index_def nm3)
  have w5: "window_mean_x ?y 1 1 5 = Fin 1"
    by (simp add: window_mean_x_def py_slice_def norm_index_def nm3)
  have w6: "window_mean_x ?y 1 1 6 = Fin 1"
    by (simp add: window_mean_x_def py_slice_def norm_index_def nm2)
  have fast: "mov_avg_no_nan_x ?y 1 1 = Inr [PInf, NaN, NaN, NaN, NaN, NaN, Fin 1]"
    unfolding mov_avg_no_nan_x_def Let_def
    using uf w0 w6 by (simp add: bind_err_Inr upt_rec numeral_eq_Suc)
  have loop: "mov_avg_loop_x ?y 1 1 = [PInf, PInf, Fin 1, Fin 1, Fin 1, Fin 1, Fin 1]"
    unfolding mov_avg_loop_x_def Let_def
    using w0 w1 w2 w3 w4 w5 w6
    by (simp add: upt_rec numeral_eq_Suc)
  show ?thesis using fast loop by simp
qed

section \<open>The constant-rate adapter\<close>

text \<open>
  C8 (adapter error handling), as stated: \<open>mov_avg_time\<close> fails when
  \<open>freq \<le> 0\<close> or \<open>time_before < 0\<close>.  It does not: with \<open>freq = 0\<close> it returns
  the input, and with \<open>time_before = -2\<close> it returns a series of missing
  values.
\<close>

theorem mov_avg_time_no_failure_counterexample:
  "mov_avg_time [Some 1, Some 2] (Fin 0) (Fin 1) (Fin (- 1)) = Inr [Some 1, Some 2]
   \<and> mov_avg_time [Some 1, Some 2] (Fin 1) (Fin (- 2)) (Fin (- 1)) = Inr [None, None]"
proof -
  have t1: "mov_avg_time [Some 1, Some 2] (Fin 0) (Fin 1) (Fin (- 1))
            = mov_avg [Some 1, Some 2] 0 (- 1)"
    by (simp add: mov_avg_time_def bind_err_Inr fin_zero)
  have t2: "mov_avg_time [Some 1, Some 2] (Fin 1) (Fin (- 2)) (Fin (- 1))
            = mov_avg [Some 1, Some 2] (- 2) (- 1)"
    by (simp add: mov_avg_time_def bind_err_Inr fin_small)
  show ?thesis
    unfolding t1 t2 by (simp add: mov_avg_is_loop eval_loop)
qed

text \<open>
  C8, amended.  \<open>mov_avg_time\<close> does not reject a frequency or a duration: for
  every series and all finite \<open>freq\<close>, \<open>time_before\<close> and \<open>time_after\<close> with
  \<open>freq \<le> 0\<close> or \<open>time_before < 0\<close>, the products \<open>time * freq\<close> not overflowing,
  it raises nothing and returns a series as long as the input.
\<close>

theorem mov_avg_time_accepts_invalid_arguments:
  "f \<le> 0 \<or> t < 0 \<Longrightarrow> \<not> float_overflow (t * f) \<Longrightarrow>
   time_after = Fin (- 1) \<or> (\<exists>u. time_after = Fin u \<and> \<not> float_overflow (u * f)) \<Longrightarrow>
   \<exists>y_filt. mov_avg_time y (Fin f) (Fin t) time_after = Inr y_filt
            \<and> length y_filt = length y"
  by (auto simp add: mov_avg_time_def bind_err_Inr fin_def mov_avg_is_loop
        length_mov_avg_loop)

theorem mov_avg_time_accepts_invalid_arguments_witness:
  "\<exists>y_filt. mov_avg_time [Some 1, None, Some 3] (Fin (- 2)) (Fin (- 1 / 2)) (Fin 3) = Inr y_filt
            \<and> length y_filt = length [Some (1::real), None, Some 3]"
proof -
  have h1: "(- 2 :: real) \<le> 0 \<or> (- 1 / 2 :: real) < 0" by simp
  have h2: "\<not> float_overflow ((- 1 / 2) * (- 2))" by (simp add: float_overflow_def)
  have h3: "Fin 3 = Fin (- 1) \<or> (\<exists>u. Fin 3 = Fin u \<and> \<not> float_overflow (u * (- 2)))"
    by (simp add: float_overflow_def)
  show ?thesis
    by (rule mov_avg_time_accepts_invalid_arguments [OF h1 h2 h3])
qed

section \<open>The variable-rate engine\<close>

text \<open>
  C4 (variable-rate window semantics).  For timestamps \<open>x\<close> of length \<open>n\<close>,
  series of length \<open>n\<close> and durations \<open>time_before \<ge> 0\<close>, \<open>time_after \<ge> 0\<close>, the
  output of \<open>mov_avg_time_variable_freq\<close> at index \<open>i\<close> of every series is the
  mean of the samples that are not missing among those at the indexes \<open>j\<close> with
  \<open>x[i] - time_before \<le> x[j] \<le> x[i] + time_after\<close>, and it is missing when
  there is none: for a batch, for one series of two samples or more, and for
  one series of a single sample, whose mean (the sample itself) is the only
  element of the result.  With \<open>x = [0, 1, 2, 10, 11]\<close>, \<open>y = [1, 2, 3, 4, 5]\<close>
  and durations \<open>(1, 1)\<close> the output is \<open>1.5\<close> at index 0 and \<open>4.5\<close> at index 3.
\<close>

theorem variable_freq_window_semantics:
  "(\<forall>xs yss tb ta.
      0 \<le> tb \<and> 0 \<le> ta \<and> yss \<noteq> [] \<and> (\<forall>ys\<in>set yss. length ys = length xs) \<longrightarrow>
      mov_avg_time_variable_freq (map Some xs) (Batch yss) tb ta =
        Inr (Arr2 (map (\<lambda>ys. map (\<lambda>i.
               let w = map ((!) ys)
                         (filter (\<lambda>j. xs ! i - tb \<le> xs ! j \<and> xs ! j \<le> xs ! i + ta)
                                 [0..<length xs])
               in if \<forall>s\<in>set w. s = None then None
                  else Some (sum_list (present w) / real (length (present w))))
             [0..<length xs]) yss)))
   \<and> (\<forall>xs ys tb ta.
      0 \<le> tb \<and> 0 \<le> ta \<and> length ys = length xs \<and> 1 < length xs \<longrightarrow>
      mov_avg_time_variable_freq (map Some xs) (Single ys) tb ta =
        Inr (Arr1 (map (\<lambda>i.
               let w = map ((!) ys)
                         (filter (\<lambda>j. xs ! i - tb \<le> xs ! j \<and> xs ! j \<le> xs ! i + ta)
                                 [0..<length xs])
               in if \<forall>s\<in>set w. s = None then None
                  else Some (sum_list (present w) / real (length (present w))))
             [0..<length xs])))
   \<and> (\<forall>t v tb ta.
      0 \<le> tb \<and> 0 \<le> ta \<longrightarrow>
      mov_avg_time_variable_freq [Some t] (Single [v]) tb ta = Inr (Arr0 v))
   \<and> mov_avg_time_variable_freq [Some 0, Some 1, Some 2, Some 10, Some 11]
          (Single [Some 1, Some 2, Some 3, Some 4, Some 5]) 1 1
        = Inr (Arr1 [Some (3 / 2), Some 2, Some (5 / 2), Some (9 / 2), Some (9 / 2)])"
proof (intro conjI allI impI)
  fix xs :: "real list" and yss :: "series list" and tb ta :: real
  assume h: "0 \<le> tb \<and> 0 \<le> ta \<and> yss \<noteq> [] \<and> (\<forall>ys\<in>set yss. length ys = length xs)"
  then have ta: "ta \<noteq> - 1" and ne: "yss \<noteq> []"
    and len: "\<And>ys. ys \<in> set yss \<Longrightarrow> length ys = length xs"
    by auto
  show "mov_avg_time_variable_freq (map Some xs) (Batch yss) tb ta =
        Inr (Arr2 (map (\<lambda>ys. map (\<lambda>i.
               let w = map ((!) ys)
                         (filter (\<lambda>j. xs ! i - tb \<le> xs ! j \<and> xs ! j \<le> xs ! i + ta)
                                 [0..<length xs])
               in if \<forall>s\<in>set w. s = None then None
                  else Some (sum_list (present w) / real (length (present w))))
             [0..<length xs]) yss))"
    by (simp only: variable_freq_batch [OF ne len ta] nanmean_def Let_def present_empty_iff)
next
  fix xs :: "real list" and ys :: series and tb ta :: real
  assume h: "0 \<le> tb \<and> 0 \<le> ta \<and> length ys = length xs \<and> 1 < length xs"
  then have ta: "ta \<noteq> - 1" and ne: "ys \<noteq> []" and len: "length ys = length xs"
    by auto
  have sq: "\<And>f. np_squeeze [map f [0..<length xs]] = Arr1 (map f [0..<length xs])"
    using h by (simp add: np_squeeze_def ncols_def)
  show "mov_avg_time_variable_freq (map Some xs) (Single ys) tb ta =
        Inr (Arr1 (map (\<lambda>i.
               let w = map ((!) ys)
                         (filter (\<lambda>j. xs ! i - tb \<le> xs ! j \<and> xs ! j \<le> xs ! i + ta)
                                 [0..<length xs])
               in if \<forall>s\<in>set w. s = None then None
                  else Some (sum_list (present w) / real (length (present w))))
             [0..<length xs]))"
    by (simp only: variable_freq_single [OF ne len ta] sq nanmean_def Let_def present_empty_iff)
next
  fix t :: real and v :: sample and tb ta :: real
  assume h: "0 \<le> tb \<and> 0 \<le> ta"
  then have ta: "ta \<noteq> - 1" by auto
  show "mov_avg_time_variable_freq [Some t] (Single [v]) tb ta = Inr (Arr0 v)"
    using h variable_freq_single [of "[v]" "[t]" ta tb, OF _ _ ta]
    by (simp add: np_squeeze_def ncols_def nanmean_single)
next
  show "mov_avg_time_variable_freq [Some 0, Some 1, Some 2, Some 10, Some 11]
          (Single [Some 1, Some 2, Some 3, Some 4, Some 5]) 1 1
        = Inr (Arr1 [Some (3 / 2), Some 2, Some (5 / 2), Some (9 / 2), Some (9 / 2)])"
    using variable_freq_single
            [of "[Some 1, Some 2, Some 3, Some 4, Some 5]" "[0, 1, 2, 10, 11]" 1 1]
    by (simp add: np_squeeze_def ncols_def nanmean_def upt_rec)
qed

theorem variable_freq_window_semantics_witness:
  "mov_avg_time_variable_freq [Some 0, Some 1, Some 3]
       (Batch [[Some 2, None, Some 6], [None, None, Some 1]]) 1 1
     = Inr (Arr2 [[Some 2, Some 2, Some 6], [None, None, Some 1]])"
proof -
  let ?xs = "[0, 1, 3] :: real list"
  let ?yss = "[[Some 2, None, Some 6], [None, None, Some 1]] :: series list"
  have "0 \<le> (1::real) \<and> 0 \<le> (1::real) \<and> ?yss \<noteq> []
        \<and> (\<forall>ys\<in>set ?yss. length ys = length ?xs)"
    by simp
  then have "mov_avg_time_variable_freq (map Some ?xs) (Batch ?yss) 1 1 =
        Inr (Arr2 (map (\<lambda>ys. map (\<lambda>i.
               let w = map ((!) ys)
                         (filter (\<lambda>j. ?xs ! i - 1 \<le> ?xs ! j \<and> ?xs ! j \<le> ?xs ! i + 1)
                                 [0..<length ?xs])
               in if \<forall>s\<in>set w. s = None then None
                  else Some (sum_list (present w) / real (length (present w))))
             [0..<length ?xs]) ?yss))"
    using variable_freq_window_semantics by blast
  then show ?thesis by (simp add: upt_rec)
qed

text \<open>
  C6 (length preservation).  The claim: every operation returns an output as
  long as its input.  \<open>mov_avg_time_variable_freq\<close> on the single series
  \<open>[5]\<close> with timestamps \<open>[0]\<close> returns an array of rank 0, which has no
  length, where the input has length 1.
\<close>

theorem variable_freq_single_sample_no_length:
  "mov_avg_time_variable_freq [Some 0] (Single [Some 5]) 1 1 = Inr (Arr0 (Some 5))
   \<and> py_len (Arr0 (Some 5)) = Inl TypeError
   \<and> py_len (Arr1 [Some 5]) = Inr 1"
  using variable_freq_single [of "[Some 5]" "[0]" 1 1]
  by (simp add: np_squeeze_def ncols_def nanmean_def)

text \<open>
  C7 (rank preservation).  The claim: a single series in gives a single series
  of the same shape out.  On the single series \<open>[7]\<close>, of shape \<open>(1,)\<close>, with
  timestamps \<open>[3]\<close> the result has shape \<open>()\<close>.
\<close>

theorem variable_freq_single_sample_rank:
  "mov_avg_time_variable_freq [Some 3] (Single [Some 7]) 0 0 = Inr (Arr0 (Some 7))
   \<and> shape (Arr0 (Some 7)) = []
   \<and> shape (Arr1 [Some 7]) = [1]"
  using variable_freq_single [of "[Some 7]" "[3]" 0 0]
  by (simp add: np_squeeze_def ncols_def nanmean_def)

text \<open>
  C10 (empty input).  On an empty series or an empty batch
  \<open>mov_avg_time_variable_freq\<close> fails with an \<open>IndexError\<close>, whatever the
  timestamps and the durations: \<open>containsScalars\<close> reads the first element.
\<close>

theorem variable_freq_empty_input:
  "mov_avg_time_variable_freq x (Single []) time_before time_after = Inl IndexError
   \<and> mov_avg_time_variable_freq x (Batch []) time_before time_after = Inl IndexError"
  by (simp add: mov_avg_time_variable_freq_def bind_err_Inl)

section \<open>The caller's arrays\<close>

text \<open>
  C9 (non-mutation of the caller's input).  For each of the five operations,
  from every store and with every argument: every object that was in the store
  before the call, the caller's arrays \<open>y\<close>, \<open>x\<close> and the series of a batch
  among them, is the same after the call, and the array returned is an object
  that the call allocated, at an address that did not exist before.
\<close>

theorem inputs_unchanged_output_fresh:
  "(take (length st) (snd (mov_avg_loop_h y b a st)) = st
      \<and> length st \<le> fst (mov_avg_loop_h y b a st)
      \<and> fst (mov_avg_loop_h y b a st) < length (snd (mov_avg_loop_h y b a st)))
   \<and> (take (length st) (snd (mov_avg_no_nan_h y b a st)) = st
      \<and> (case fst (mov_avg_no_nan_h y b a st) of Inl e \<Rightarrow> True
          | Inr r \<Rightarrow> length st \<le> r \<and> r < length (snd (mov_avg_no_nan_h y b a st))))
   \<and> (take (length st) (snd (mov_avg_h y b a st)) = st
      \<and> (case fst (mov_avg_h y b a st) of Inl e \<Rightarrow> True
          | Inr r \<Rightarrow> length st \<le> r \<and> r < length (snd (mov_avg_h y b a st))))
   \<and> (take (length st) (snd (mov_avg_time_h y freq time_before time_after st)) = st
      \<and> (case fst (mov_avg_time_h y freq time_before time_after st) of Inl e \<Rightarrow> True
          | Inr r \<Rightarrow> length st \<le> r
                     \<and> r < length (snd (mov_avg_time_h y freq time_before time_after st))))
   \<and> (take (length st) (snd (mov_avg_time_variable_freq_h x l tb ta st)) = st
      \<and> (case fst (mov_avg_time_variable_freq_h x l tb ta st) of Inl e \<Rightarrow> True
          | Inr r \<Rightarrow> length st \<le> r
                     \<and> r < length (snd (mov_avg_time_variable_freq_h x l tb ta st))))"
  using mov_avg_loop_h_frame [of st y b a] mov_avg_no_nan_h_frame [of st y b a]
    mov_avg_h_frame [of st y b a] mov_avg_time_h_frame [of st y freq time_before time_after]
    mov_avg_time_variable_freq_h_frame [of st x l tb ta]
  by simp

end
